theory Spec2Isabelle
  imports Main "HOL-Library.Word"
begin

section \<open>Go values shared by the packages\<close>

text \<open>
  Go strings are byte sequences and are modelled as \<open>string\<close>.  A pointer that may be
  \<open>nil\<close> is an \<open>option\<close>.  A function that may panic returns an \<open>exec\<close>: either the
  value it returns or \<open>Panic\<close> with the message, which aborts the process.
\<close>

datatype 'a exec = Return 'a | Panic string

definition nilDereference :: string where
  "nilDereference = ''runtime error: invalid memory address or nil pointer dereference''"

text \<open>
  \<open>strings.TrimSpace\<close> removes the leading and the trailing white space of a string,
  rune by rune: a rune is white space when \<open>unicode.IsSpace\<close> holds of it.  Those are
  tab, line feed, vertical tab, form feed, carriage return and space, U+0085 and U+00A0,
  U+1680, U+2000 to U+200A, U+2028, U+2029, U+202F, U+205F and U+3000.  \<open>spaceRunes\<close>
  lists their UTF-8 encodings.  Go decodes a rune only from its shortest encoding, so the
  string starts (or ends) with a white-space rune exactly when it starts (or ends) with
  one of these byte sequences; any other bytes, invalid UTF-8 included, are not white
  space.
\<close>

definition spaceRunes :: "string list" where
  "spaceRunes =
     [[CHR 0x09], [CHR 0x0A], [CHR 0x0B], [CHR 0x0C], [CHR 0x0D], [CHR 0x20],
      [CHR 0xC2, CHR 0x85], [CHR 0xC2, CHR 0xA0],
      [CHR 0xE1, CHR 0x9A, CHR 0x80],
      [CHR 0xE2, CHR 0x80, CHR 0x80], [CHR 0xE2, CHR 0x80, CHR 0x81],
      [CHR 0xE2, CHR 0x80, CHR 0x82], [CHR 0xE2, CHR 0x80, CHR 0x83],
      [CHR 0xE2, CHR 0x80, CHR 0x84], [CHR 0xE2, CHR 0x80, CHR 0x85],
      [CHR 0xE2, CHR 0x80, CHR 0x86], [CHR 0xE2, CHR 0x80, CHR 0x87],
      [CHR 0xE2, CHR 0x80, CHR 0x88], [CHR 0xE2, CHR 0x80, CHR 0x89],
      [CHR 0xE2, CHR 0x80, CHR 0x8A],
      [CHR 0xE2, CHR 0x80, CHR 0xA8], [CHR 0xE2, CHR 0x80, CHR 0xA9],
      [CHR 0xE2, CHR 0x80, CHR 0xAF],
      [CHR 0xE2, CHR 0x81, CHR 0x9F],
      [CHR 0xE3, CHR 0x80, CHR 0x80]]"

text \<open>
  The width in bytes of the entry of \<open>table\<close> that \<open>s\<close> starts with, and 0 when it
  starts with none.
\<close>

definition runeWidth :: "string list \<Rightarrow> string \<Rightarrow> nat" where
  "runeWidth table s =
     (case filter (\<lambda>w. take (length w) s = w) table of [] \<Rightarrow> 0 | w # _ \<Rightarrow> length w)"

text \<open>
  The loop of \<open>strings.TrimLeftFunc\<close>: drop runes of the table from the front until the
  string starts with none.
\<close>

function dropRunes :: "string list \<Rightarrow> string \<Rightarrow> string" where
  "dropRunes table [] = []"
| "dropRunes table (c # cs) =
     (if runeWidth table (c # cs) = 0 then c # cs
      else dropRunes table (drop (runeWidth table (c # cs) - 1) cs))"
  by pat_completeness auto
termination
  by (relation "measure (\<lambda>(table, s). length s)") auto

text \<open>
  The front is trimmed first, then the end of what is left: the end is read backwards,
  against the reversed encodings.
\<close>

definition TrimSpace :: "string \<Rightarrow> string" where
  "TrimSpace s = rev (dropRunes (map rev spaceRunes) (rev (dropRunes spaceRunes s)))"

text \<open>\<open>strings.HasSuffix(s, suffix)\<close>: \<open>len(s) >= len(suffix) && s[len(s)-len(suffix):] == suffix\<close>.\<close>

definition HasSuffix :: "string \<Rightarrow> string \<Rightarrow> bool" where
  "HasSuffix s suf = (length suf \<le> length s \<and> drop (length s - length suf) s = suf)"

text \<open>
  The errors of the packages.  \<open>Errorf\<close> is an error made by \<open>fmt.Errorf\<close> (the
  formatted message), \<open>WrapPrefix e p\<close> is \<open>errors.WrapPrefix(e, p, 1)\<close>, and
  \<open>External\<close> is an error handed over by a collaborator (the client, the manifest reader,
  the prune engine).
\<close>

record GroupKind =
  Group :: string
  Kind :: string

text \<open>
  What the code reads of an \<open>*unstructured.Unstructured\<close>: its group and kind, its
  \<open>metadata.name\<close> and its \<open>metadata.labels\<close>.
\<close>

record unstructured =
  objGroupKind :: GroupKind
  objName :: string
  objLabels :: "string \<rightharpoonup> string"

datatype error =
    NoInventoryObjError
  | MultipleInventoryObjError "unstructured option list"
  | Errorf string
  | WrapPrefix error string
  | External string

text \<open>
  A \<open>runtime.Object\<close> is either an object with metadata, for which \<open>meta.Accessor\<close>
  succeeds, or an object without it, for which \<open>meta.Accessor\<close> returns an error; both
  know their group and kind.
\<close>

datatype runtime_object = MetaObject unstructured | PlainObject GroupKind

text \<open>\<open>resource.Info\<close>, as far as the code uses it; \<open>Object\<close> may be \<open>nil\<close>.\<close>

record Info =
  Name :: string
  Object :: "runtime_object option"

section \<open>Package inventory\<close>

definition legacyInvName :: string where
  "legacyInvName = ''inventory''"

text \<open>
  \<open>retrieveInventoryLabel\<close> returns the pair \<open>(string, error)\<close> of the source.  The label
  key \<open>common.InventoryLabel\<close> is declared outside the sources at hand and is the
  parameter \<open>lbl\<close>.  \<open>meta.Accessor\<close> cannot fail on an \<open>*unstructured.Unstructured\<close>,
  and \<open>GetLabels\<close> of an object without labels is the empty map.
\<close>

definition retrieveInventoryLabel :: "string \<Rightarrow> unstructured option \<Rightarrow> string \<times> error option" where
  "retrieveInventoryLabel lbl obj =
     (case obj of
        None \<Rightarrow> ('''', Some (Errorf ''inventory info is nil''))
      | Some u \<Rightarrow>
          (case objLabels u lbl of
             None \<Rightarrow> ('''', Some (Errorf (''inventory label does not exist for inventory object: '' @ lbl)))
           | Some inventoryLabel \<Rightarrow> (TrimSpace inventoryLabel, None)))"

definition IsInventoryObject :: "string \<Rightarrow> unstructured option \<Rightarrow> bool" where
  "IsInventoryObject lbl obj =
     (case obj of
        None \<Rightarrow> False
      | Some u \<Rightarrow>
          (case retrieveInventoryLabel lbl obj of
             (inventoryLabel, err) \<Rightarrow>
               if err = None \<and> length inventoryLabel > 0 then True else False))"

text \<open>
  The loop of \<open>SplitInfos\<close>: \<open>invs\<close> and \<open>resources\<close> are the two slices it appends to.
  \<open>object.InfoToUnstructured\<close> is declared outside the sources at hand and is the
  parameter \<open>toU\<close>, a function from \<open>*resource.Info\<close> to \<open>*unstructured.Unstructured\<close>.
\<close>

fun SplitInfos_loop ::
  "string \<Rightarrow> (Info option \<Rightarrow> unstructured option) \<Rightarrow> Info option list
     \<Rightarrow> Info option list \<Rightarrow> Info option list \<Rightarrow> Info option list \<times> Info option list" where
  "SplitInfos_loop lbl toU [] invs resources = (invs, resources)"
| "SplitInfos_loop lbl toU (info # infos) invs resources =
     (if info = None \<or> Object (the info) = None then SplitInfos_loop lbl toU infos invs resources
      else if IsInventoryObject lbl (toU info)
        then SplitInfos_loop lbl toU infos (invs @ [info]) resources
        else SplitInfos_loop lbl toU infos invs (resources @ [info]))"

definition SplitInfos ::
  "string \<Rightarrow> (Info option \<Rightarrow> unstructured option) \<Rightarrow> Info option list
     \<Rightarrow> Info option \<times> Info option list \<times> error option" where
  "SplitInfos lbl toU infos =
     (case SplitInfos_loop lbl toU infos [] [] of
        (invs, resources) \<Rightarrow>
          if length invs = 0 then (None, resources, Some NoInventoryObjError)
          else if length invs > 1
            then (None, resources, Some (MultipleInventoryObjError (map toU invs)))
            else (invs ! 0, resources, None))"

fun SplitUnstructureds_loop ::
  "string \<Rightarrow> unstructured option list \<Rightarrow> unstructured option list \<Rightarrow> unstructured option list
     \<Rightarrow> unstructured option list \<times> unstructured option list" where
  "SplitUnstructureds_loop lbl [] invs resources = (invs, resources)"
| "SplitUnstructureds_loop lbl (obj # objs) invs resources =
     (if IsInventoryObject lbl obj
        then SplitUnstructureds_loop lbl objs (invs @ [obj]) resources
        else SplitUnstructureds_loop lbl objs invs (resources @ [obj]))"

definition SplitUnstructureds ::
  "string \<Rightarrow> unstructured option list
     \<Rightarrow> unstructured option \<times> unstructured option list \<times> error option" where
  "SplitUnstructureds lbl objs =
     (case SplitUnstructureds_loop lbl objs [] [] of
        (invs, resources) \<Rightarrow>
          if length invs = 0 then (None, resources, Some NoInventoryObjError)
          else if length invs > 1
            then (None, resources, Some (MultipleInventoryObjError invs))
            else (invs ! 0, resources, None))"

text \<open>The negation of the loop's skip test \<open>info == nil || info.Object == nil\<close>.\<close>

definition present :: "Info option \<Rightarrow> bool" where
  "present info = (info \<noteq> None \<and> Object (the info) \<noteq> None)"

text \<open>
  \<open>addSuffixToName\<close> changes the name in the object and in the \<open>Info\<close>; the model
  returns the error together with the \<open>Info\<close> as the call leaves it.  The error of
  \<open>meta.Accessor\<close> is dropped by the source, so on a \<open>nil\<close> object, or one without
  metadata, the \<open>nil\<close> accessor is called and the function panics.
\<close>

definition addSuffixToName :: "Info option \<Rightarrow> string \<Rightarrow> (error option \<times> Info option) exec" where
  "addSuffixToName info suffix =
     (case info of
        None \<Rightarrow> Return (Some (Errorf ''nil resource.Info''), info)
      | Some i \<Rightarrow>
          (let suffix = TrimSpace suffix in
           if length suffix = 0 then Return (Some (Errorf ''passed empty suffix''), info)
           else
             (case Object i of
                Some (MetaObject u) \<Rightarrow>
                  (let name = objName u in
                   if name \<noteq> Name i
                   then Return (Some (Errorf (''inventory object ('' @ name @ '') and resource.Info (''
                                  @ Name i @ '') have different names'')), info)
                   else
                     (let suffix = ''-'' @ suffix in
                      if HasSuffix name suffix
                      then Return (Some (Errorf (''name already has suffix: '' @ name)), info)
                      else
                        (let name = name @ suffix in
                         Return (None,
                           Some (i\<lparr>Name := name, Object := Some (MetaObject (u\<lparr>objName := name\<rparr>))\<rparr>)))))
              | _ \<Rightarrow> Panic nilDereference)))"

text \<open>
  \<open>fixLegacyInventoryName\<close>.  \<open>common.RandomStr\<close> is declared outside the sources at
  hand and is the parameter \<open>RandomStr\<close>; \<open>seed\<close> is the clock reading
  \<open>time.Now().UTC().UnixNano()\<close>, an \<open>int64\<close>.
\<close>

definition fixLegacyInventoryName ::
  "(64 word \<Rightarrow> string) \<Rightarrow> 64 word \<Rightarrow> Info option \<Rightarrow> (error option \<times> Info option) exec" where
  "fixLegacyInventoryName RandomStr seed info =
     (if info = None \<or> Object (the info) = None
      then Return (Some (Errorf ''invalid inventory object is nil or info.Object is nil''), info)
      else
        (case Object (the info) of
           Some (PlainObject gk) \<Rightarrow>
             Return (Some (External ''object does not implement the Object interfaces''), info)
         | Some (MetaObject u) \<Rightarrow>
             (let name = objName u in
              if Name (the info) = legacyInvName \<or> name = legacyInvName
              then (let randomSuffix = RandomStr seed in addSuffixToName info randomSuffix)
              else Return (None, info))
         | None \<Rightarrow>
             Return (Some (Errorf ''invalid inventory object is nil or info.Object is nil''), info)))"

section \<open>Package event\<close>

text \<open>
  Modelled from the spec: the declarations of package \<open>event\<close> (and of \<open>pollevent\<close>,
  \<open>object\<close> and \<open>common\<close>) are not in the sources at hand.  The spec gives the event
  types Init, Apply, Status, Prune, Delete and Error, the apply operations
  ServersideApplied, Created, Unchanged, Configured and Failed, the prune operations
  Pruned and PruneSkipped, and the delete operations Deleted and DeleteSkipped; each
  sub-event is a phase-completed marker or a resource update.  The names are the ones
  the sources use.  A Go enum is an \<open>int\<close>: the last constructor of each type stands
  for a value that is none of the declared constants.
\<close>

datatype EventType =
  InitType | ErrorType | ApplyType | StatusType | PruneType | DeleteType | OtherEventType int

datatype ApplyEventType = ApplyEventResourceUpdate | ApplyEventCompleted | OtherApplyEventType int

datatype ApplyEventOperation =
  ServersideApplied | Created | Unchanged | Configured | Failed | OtherApplyEventOperation int

datatype PruneEventType = PruneEventResourceUpdate | PruneEventCompleted | OtherPruneEventType int

datatype PruneEventOperation = Pruned | PruneSkipped | OtherPruneEventOperation int

datatype DeleteEventType = DeleteEventResourceUpdate | DeleteEventCompleted | OtherDeleteEventType int

datatype DeleteEventOperation = Deleted | DeleteSkipped | OtherDeleteEventOperation int

datatype PollEventType =
  ResourceUpdateEvent | ErrorEvent | CompletedEvent | AbortedEvent | OtherPollEventType int

datatype DryRunStrategy = DryRunNone | DryRunClient | DryRunServer

definition ClientDryRun :: "DryRunStrategy \<Rightarrow> bool" where
  "ClientDryRun s = (s = DryRunClient)"

definition ServerDryRun :: "DryRunStrategy \<Rightarrow> bool" where
  "ServerDryRun s = (s = DryRunServer)"

record ObjMetadata =
  mdNamespace :: string
  mdName :: string
  mdGroupKind :: GroupKind

record ResourceStatus =
  Identifier :: ObjMetadata
  Status :: string
  Message :: string

text \<open>
  \<open>pollevent.Event\<close>: \<open>Resource\<close> is a pointer, \<open>Error\<close> is an \<open>error\<close>, kept by the
  message its \<open>Error()\<close> method returns.
\<close>

record StatusEvent =
  pollEventType :: PollEventType
  Resource :: "ResourceStatus option"
  Error :: "string option"

record ErrorEvent =
  Err :: "error option"

record ApplyEvent =
  applyType :: ApplyEventType
  applyOperation :: ApplyEventOperation
  applyObject :: "runtime_object option"

record PruneEvent =
  pruneType :: PruneEventType
  pruneOperation :: PruneEventOperation
  pruneObject :: "runtime_object option"

record DeleteEvent =
  deleteType :: DeleteEventType
  deleteOperation :: DeleteEventOperation
  deleteObject :: "runtime_object option"

text \<open>\<open>event.Event\<close> is a struct that holds every sub-event; \<open>Type\<close> says which one counts.\<close>

record Event =
  Type :: EventType
  errorEvent :: ErrorEvent
  applyEvent :: ApplyEvent
  statusEvent :: StatusEvent
  pruneEvent :: PruneEvent
  deleteEvent :: DeleteEvent

text \<open>
  A struct literal leaves the fields it does not name at their zero values: \<open>nil\<close> for a
  pointer or interface, and for an enum the constant numbered 0, taken here to be the
  first one listed above.  No theorem below depends on which constant that is.
\<close>

definition zeroEvent :: Event where
  "zeroEvent =
     \<lparr>Type = InitType,
      errorEvent = \<lparr>Err = None\<rparr>,
      applyEvent = \<lparr>applyType = ApplyEventResourceUpdate, applyOperation = ServersideApplied,
                    applyObject = None\<rparr>,
      statusEvent = \<lparr>pollEventType = ResourceUpdateEvent, Resource = None, Error = None\<rparr>,
      pruneEvent = \<lparr>pruneType = PruneEventResourceUpdate, pruneOperation = Pruned,
                    pruneObject = None\<rparr>,
      deleteEvent = \<lparr>deleteType = DeleteEventResourceUpdate, deleteOperation = Deleted,
                     deleteObject = None\<rparr>\<rparr>"

text \<open>Decimal rendering of an integer, as \<open>%d\<close> and \<open>strconv\<close> print it.\<close>

fun natToString :: "nat \<Rightarrow> string" where
  "natToString n =
     (if n < 10 then [''0123456789'' ! n]
      else natToString (n div 10) @ [''0123456789'' ! (n mod 10)])"

declare natToString.simps [simp del]

definition intToString :: "int \<Rightarrow> string" where
  "intToString i = (if i < 0 then ''-'' @ natToString (nat (- i)) else natToString (nat i))"

text \<open>
  The \<open>String\<close> method that \<open>stringer\<close> generates for \<open>ApplyEventOperation\<close> and
  \<open>PruneEventOperation\<close>: the constant's name, or the type's name with the number.
\<close>

fun ApplyEventOperation_String :: "ApplyEventOperation \<Rightarrow> string" where
  "ApplyEventOperation_String ServersideApplied = ''ServersideApplied''"
| "ApplyEventOperation_String Created = ''Created''"
| "ApplyEventOperation_String Unchanged = ''Unchanged''"
| "ApplyEventOperation_String Configured = ''Configured''"
| "ApplyEventOperation_String Failed = ''Failed''"
| "ApplyEventOperation_String (OtherApplyEventOperation i) =
     ''ApplyEventOperation('' @ intToString i @ '')''"

fun PruneEventOperation_String :: "PruneEventOperation \<Rightarrow> string" where
  "PruneEventOperation_String Pruned = ''Pruned''"
| "PruneEventOperation_String PruneSkipped = ''PruneSkipped''"
| "PruneEventOperation_String (OtherPruneEventOperation i) =
     ''PruneEventOperation('' @ intToString i @ '')''"

section \<open>Package apply: the printer\<close>

text \<open>
  The counters are Go \<open>int\<close>s, 64 bits wide on the platforms the tool is built for;
  \<open>++\<close> wraps around and \<open>%d\<close> prints the signed value.
\<close>

type_synonym goint = "64 word"

record applyStats =
  serversideApplied :: goint
  created :: goint
  unchanged :: goint
  configured :: goint

definition inc :: "applyStats \<Rightarrow> ApplyEventOperation \<Rightarrow> applyStats exec" where
  "inc a op =
     (case op of
        ServersideApplied \<Rightarrow> Return (a\<lparr>serversideApplied := serversideApplied a + 1\<rparr>)
      | Created \<Rightarrow> Return (a\<lparr>created := created a + 1\<rparr>)
      | Unchanged \<Rightarrow> Return (a\<lparr>unchanged := unchanged a + 1\<rparr>)
      | Configured \<Rightarrow> Return (a\<lparr>configured := configured a + 1\<rparr>)
      | _ \<Rightarrow> Panic (''unknown apply operation '' @ ApplyEventOperation_String op))"

definition applyStats_sum :: "applyStats \<Rightarrow> goint" where
  "applyStats_sum a = serversideApplied a + configured a + unchanged a + created a"

record pruneStats =
  pruned :: goint
  pruneStats_skipped :: goint

definition incPruned :: "pruneStats \<Rightarrow> pruneStats" where
  "incPruned ps = ps\<lparr>pruned := pruned ps + 1\<rparr>"

definition pruneStats_incSkipped :: "pruneStats \<Rightarrow> pruneStats" where
  "pruneStats_incSkipped ps = ps\<lparr>pruneStats_skipped := pruneStats_skipped ps + 1\<rparr>"

record deleteStats =
  deleted :: goint
  deleteStats_skipped :: goint

definition incDeleted :: "deleteStats \<Rightarrow> deleteStats" where
  "incDeleted ds = ds\<lparr>deleted := deleted ds + 1\<rparr>"

definition deleteStats_incSkipped :: "deleteStats \<Rightarrow> deleteStats" where
  "deleteStats_incSkipped ds = ds\<lparr>deleteStats_skipped := deleteStats_skipped ds + 1\<rparr>"

text \<open>
  \<open>latestStatus\<close> is a Go map.  It is kept as a list of pairs with one pair for a key,
  because the printer ranges over it; Go leaves the order of that range open, and the
  list's order is one of the orders it can take.
\<close>

record statusCollector =
  latestStatus :: "(ObjMetadata \<times> StatusEvent) list"
  printStatus :: bool

fun mapStore :: "('k \<times> 'v) list \<Rightarrow> 'k \<Rightarrow> 'v \<Rightarrow> ('k \<times> 'v) list" where
  "mapStore [] k v = [(k, v)]"
| "mapStore ((k', v') # m) k v = (if k' = k then (k, v) # m else (k', v') # mapStore m k v)"

definition updateStatus :: "statusCollector \<Rightarrow> ObjMetadata \<Rightarrow> StatusEvent \<Rightarrow> statusCollector" where
  "updateStatus sc id' se = sc\<lparr>latestStatus := mapStore (latestStatus sc) id' se\<rparr>"

text \<open>
  What the printer writes: every call of the \<open>printFunc\<close> ends in one
  \<open>fmt.Fprintf(b.IOStreams.Out, format, a...)\<close>, kept as the format and the arguments.
\<close>

datatype arg = IntArg goint | StrArg string

datatype line = Fprintf string "arg list"

type_synonym printFunc = "string \<Rightarrow> arg list \<Rightarrow> line"

definition getPrintFunc :: "DryRunStrategy \<Rightarrow> printFunc" where
  "getPrintFunc previewStrategy =
     (\<lambda>format a.
        (let format =
           (if ClientDryRun previewStrategy then format @ '' (preview)''
            else if ServerDryRun previewStrategy then format @ '' (preview-server)''
            else format)
         in Fprintf (format @ [CHR 0x0A]) a))"

text \<open>
  \<open>strings.ToLower\<close> on ASCII letters (the bytes of other runes are kept as they are;
  group and kind names are ASCII), and \<open>schema.GroupKind.String\<close>.
\<close>

definition ToLower :: "string \<Rightarrow> string" where
  "ToLower s =
     map (\<lambda>c. if (65::nat) \<le> of_char c \<and> of_char c \<le> (90::nat)
              then char_of (of_char c + (32::nat)) else c) s"

definition GroupKind_String :: "GroupKind \<Rightarrow> string" where
  "GroupKind_String gk = (if length (Group gk) = 0 then Kind gk else Kind gk @ ''.'' @ Group gk)"

definition GetObjectKind :: "runtime_object \<Rightarrow> GroupKind" where
  "GetObjectKind obj = (case obj of MetaObject u \<Rightarrow> objGroupKind u | PlainObject gk \<Rightarrow> gk)"

definition getName :: "runtime_object \<Rightarrow> string" where
  "getName obj =
     (case obj of
        MetaObject u \<Rightarrow> (if length (objName u) > 0 then objName u else ''<unknown>'')
      | PlainObject gk \<Rightarrow> ''<unknown>'')"

definition resourceIDToString :: "GroupKind \<Rightarrow> string \<Rightarrow> string" where
  "resourceIDToString gk name = ToLower (GroupKind_String gk) @ ''/'' @ name"

definition printResourceStatus :: "ObjMetadata \<Rightarrow> StatusEvent \<Rightarrow> printFunc \<Rightarrow> line exec" where
  "printResourceStatus id' se p =
     (case Resource se of
        None \<Rightarrow> Panic nilDereference
      | Some r \<Rightarrow>
          Return (p ''%s is %s: %s''
            [StrArg (resourceIDToString (mdGroupKind id') (mdName id')),
             StrArg (Status r), StrArg (Message r)]))"

text \<open>The range over \<open>latestStatus\<close> in \<open>processApplyEvent\<close>.\<close>

fun printAllStatus :: "(ObjMetadata \<times> StatusEvent) list \<Rightarrow> printFunc \<Rightarrow> line list exec" where
  "printAllStatus [] p = Return []"
| "printAllStatus ((id', se) # m) p =
     (case printResourceStatus id' se p of
        Panic msg \<Rightarrow> Panic msg
      | Return w \<Rightarrow>
          (case printAllStatus m p of
             Panic msg \<Rightarrow> Panic msg
           | Return ws \<Rightarrow> Return (w # ws)))"

text \<open>
  Each \<open>process...Event\<close> returns the statistics as it leaves them and the lines it
  wrote, in order.  \<open>obj.GetObjectKind()\<close> on a \<open>nil\<close> object panics.
\<close>

definition processApplyEvent ::
  "ApplyEvent \<Rightarrow> applyStats \<Rightarrow> statusCollector \<Rightarrow> printFunc
     \<Rightarrow> (applyStats \<times> statusCollector \<times> line list) exec" where
  "processApplyEvent ae as c p =
     (case applyType ae of
        ApplyEventCompleted \<Rightarrow>
          (let output = intToString (sint (applyStats_sum as)) @ '' resource(s) applied. ''
                 @ intToString (sint (created as)) @ '' created, ''
                 @ intToString (sint (unchanged as)) @ '' unchanged, ''
                 @ intToString (sint (configured as)) @ '' configured'';
               output = (if sint (serversideApplied as) > 0
                         then output @ '', '' @ intToString (sint (serversideApplied as))
                                @ '' serverside applied''
                         else output)
           in case printAllStatus (latestStatus c) p of
                Panic msg \<Rightarrow> Panic msg
              | Return ws \<Rightarrow> Return (as, c\<lparr>printStatus := True\<rparr>, p output [] # ws))
      | ApplyEventResourceUpdate \<Rightarrow>
          (case applyObject ae of
             None \<Rightarrow> Panic nilDereference
           | Some obj \<Rightarrow>
               (let gk = GetObjectKind obj; name = getName obj in
                case inc as (applyOperation ae) of
                  Panic msg \<Rightarrow> Panic msg
                | Return as' \<Rightarrow>
                    Return (as', c,
                      [p ''%s %s'' [StrArg (resourceIDToString gk name),
                                    StrArg (ToLower (ApplyEventOperation_String (applyOperation ae)))]])))
      | _ \<Rightarrow> Return (as, c, []))"

definition processStatusEvent ::
  "StatusEvent \<Rightarrow> statusCollector \<Rightarrow> printFunc \<Rightarrow> (statusCollector \<times> line list) exec" where
  "processStatusEvent se sc p =
     (case pollEventType se of
        ResourceUpdateEvent \<Rightarrow>
          (case Resource se of
             None \<Rightarrow> Panic nilDereference
           | Some r \<Rightarrow>
               (let id' = Identifier r; sc = updateStatus sc id' se in
                if printStatus sc
                then (case printResourceStatus id' se p of
                        Panic msg \<Rightarrow> Panic msg
                      | Return w \<Rightarrow> Return (sc, [w]))
                else Return (sc, [])))
      | ErrorEvent \<Rightarrow>
          (case Resource se of
             None \<Rightarrow> Panic nilDereference
           | Some r \<Rightarrow>
               (let id' = Identifier r; gk = mdGroupKind id' in
                case Error se of
                  None \<Rightarrow> Panic nilDereference
                | Some msg \<Rightarrow>
                    Return (sc, [p (''%s error: %s'' @ [CHR 0x0A])
                                   [StrArg (resourceIDToString gk (mdName id')), StrArg msg]])))
      | CompletedEvent \<Rightarrow>
          Return (sc\<lparr>printStatus := False\<rparr>, [p ''all resources has reached the Current status'' []])
      | AbortedEvent \<Rightarrow>
          Return (sc\<lparr>printStatus := False\<rparr>, [p ''resources failed to the reached Current status'' []])
      | _ \<Rightarrow> Return (sc, []))"

definition processPruneEvent ::
  "PruneEvent \<Rightarrow> pruneStats \<Rightarrow> printFunc \<Rightarrow> (pruneStats \<times> line list) exec" where
  "processPruneEvent pe ps p =
     (case pruneType pe of
        PruneEventCompleted \<Rightarrow>
          Return (ps, [p ''%d resource(s) pruned, %d skipped''
                         [IntArg (pruned ps), IntArg (pruneStats_skipped ps)]])
      | PruneEventResourceUpdate \<Rightarrow>
          (case pruneObject pe of
             None \<Rightarrow> Panic nilDereference
           | Some obj \<Rightarrow>
               (let gk = GetObjectKind obj; name = getName obj in
                case pruneOperation pe of
                  Pruned \<Rightarrow>
                    Return (incPruned ps,
                      [p ''%s %s'' [StrArg (resourceIDToString gk name), StrArg ''pruned'']])
                | PruneSkipped \<Rightarrow>
                    Return (pruneStats_incSkipped ps,
                      [p ''%s %s'' [StrArg (resourceIDToString gk name), StrArg ''prune skipped'']])
                | _ \<Rightarrow> Return (ps, [])))
      | _ \<Rightarrow> Return (ps, []))"

definition processDeleteEvent ::
  "DeleteEvent \<Rightarrow> deleteStats \<Rightarrow> printFunc \<Rightarrow> (deleteStats \<times> line list) exec" where
  "processDeleteEvent de ds p =
     (case deleteType de of
        DeleteEventCompleted \<Rightarrow>
          Return (ds, [p ''%d resource(s) deleted, %d skipped''
                         [IntArg (deleted ds), IntArg (deleteStats_skipped ds)]])
      | DeleteEventResourceUpdate \<Rightarrow>
          (case deleteObject de of
             None \<Rightarrow> Panic nilDereference
           | Some obj \<Rightarrow>
               (let gk = GetObjectKind obj; name = getName obj in
                case deleteOperation de of
                  Deleted \<Rightarrow>
                    Return (incDeleted ds,
                      [p ''%s %s'' [StrArg (resourceIDToString gk name), StrArg ''deleted'']])
                | DeleteSkipped \<Rightarrow>
                    Return (deleteStats_incSkipped ds,
                      [p ''%s %s'' [StrArg (resourceIDToString gk name), StrArg ''delete skipped'']])
                | _ \<Rightarrow> Return (ds, [])))
      | _ \<Rightarrow> Return (ds, []))"

text \<open>
  The state of \<open>Print\<close>: its four local variables and what it has written so far.
\<close>

record printer =
  stApply :: applyStats
  stStatus :: statusCollector
  stPrune :: pruneStats
  stDelete :: deleteStats
  written :: "line list"

definition newPrinter :: printer where
  "newPrinter =
     \<lparr>stApply = \<lparr>serversideApplied = 0, created = 0, unchanged = 0, configured = 0\<rparr>,
      stStatus = \<lparr>latestStatus = [], printStatus = False\<rparr>,
      stPrune = \<lparr>pruned = 0, pruneStats_skipped = 0\<rparr>,
      stDelete = \<lparr>deleted = 0, deleteStats_skipped = 0\<rparr>,
      written = []\<rparr>"

text \<open>
  The body of the \<open>for e := range ch\<close> loop for one event: \<open>Inl\<close> is the \<open>return\<close> of the
  Error case, \<open>Inr\<close> the state the next iteration starts from.
\<close>

definition Print_step :: "printFunc \<Rightarrow> Event \<Rightarrow> printer \<Rightarrow> (error option + printer) exec" where
  "Print_step printFunc e st =
     (case Type e of
        ErrorType \<Rightarrow> Return (Inl (Err (errorEvent e)))
      | ApplyType \<Rightarrow>
          (case processApplyEvent (applyEvent e) (stApply st) (stStatus st) printFunc of
             Panic msg \<Rightarrow> Panic msg
           | Return (as, sc, ws) \<Rightarrow>
               Return (Inr (st\<lparr>stApply := as, stStatus := sc, written := written st @ ws\<rparr>)))
      | StatusType \<Rightarrow>
          (case processStatusEvent (statusEvent e) (stStatus st) printFunc of
             Panic msg \<Rightarrow> Panic msg
           | Return (sc, ws) \<Rightarrow> Return (Inr (st\<lparr>stStatus := sc, written := written st @ ws\<rparr>)))
      | PruneType \<Rightarrow>
          (case processPruneEvent (pruneEvent e) (stPrune st) printFunc of
             Panic msg \<Rightarrow> Panic msg
           | Return (ps, ws) \<Rightarrow> Return (Inr (st\<lparr>stPrune := ps, written := written st @ ws\<rparr>)))
      | DeleteType \<Rightarrow>
          (case processDeleteEvent (deleteEvent e) (stDelete st) printFunc of
             Panic msg \<Rightarrow> Panic msg
           | Return (ds, ws) \<Rightarrow> Return (Inr (st\<lparr>stDelete := ds, written := written st @ ws\<rparr>)))
      | _ \<Rightarrow> Return (Inr st))"

text \<open>
  The loop over the events the channel delivers before it is closed.  The result is how
  the loop ends: the channel is closed (\<open>Drained\<close>), an Error event makes \<open>Print\<close>
  return with the events after it unread (\<open>Stopped\<close>), or the process panics
  (\<open>Panicked\<close>, with the state before the event that panics).
\<close>

datatype loop_end =
    Drained printer
  | Stopped "error option" printer "Event list"
  | Panicked string printer

fun Print_loop :: "printFunc \<Rightarrow> Event list \<Rightarrow> printer \<Rightarrow> loop_end" where
  "Print_loop printFunc [] st = Drained st"
| "Print_loop printFunc (e # ch) st =
     (case Print_step printFunc e st of
        Panic msg \<Rightarrow> Panicked msg st
      | Return (Inl err) \<Rightarrow> Stopped err st ch
      | Return (Inr st') \<Rightarrow> Print_loop printFunc ch st')"

text \<open>
  \<open>Print\<close> on a channel that delivers \<open>ch\<close> and is then closed: the error it returns
  (or the panic), the lines written and the events left unread.
\<close>

record printed =
  returned :: "error option exec"
  printedLines :: "line list"
  unread :: "Event list"

definition Print :: "Event list \<Rightarrow> DryRunStrategy \<Rightarrow> printed" where
  "Print ch previewStrategy =
     (let printFunc = getPrintFunc previewStrategy in
      case Print_loop printFunc ch newPrinter of
        Drained st \<Rightarrow> \<lparr>returned = Return None, printedLines = written st, unread = []\<rparr>
      | Stopped err st rest \<Rightarrow> \<lparr>returned = Return err, printedLines = written st, unread = rest\<rparr>
      | Panicked msg st \<Rightarrow> \<lparr>returned = Panic msg, printedLines = written st, unread = []\<rparr>)"

section \<open>Package apply: the destroyer\<close>

definition transformPruneOperation :: "PruneEventOperation \<Rightarrow> DeleteEventOperation exec" where
  "transformPruneOperation pruneOp =
     (case pruneOp of
        PruneSkipped \<Rightarrow> Return DeleteSkipped
      | Pruned \<Rightarrow> Return Deleted
      | _ \<Rightarrow> Panic (''unknown prune operation '' @ PruneEventOperation_String pruneOp))"

text \<open>
  The body of the loop of the goroutine that \<open>runPruneEventTransformer\<close> starts: the
  event it sends on \<open>eventChannel\<close> for the message \<open>msg\<close> read from the temporary
  channel, or the panic of \<open>transformPruneOperation\<close>.
\<close>

definition transformMessage :: "Event \<Rightarrow> Event exec" where
  "transformMessage msg =
     (case transformPruneOperation (pruneOperation (pruneEvent msg)) of
        Panic m \<Rightarrow> Panic m
      | Return op \<Rightarrow>
          Return (zeroEvent\<lparr>Type := DeleteType,
                    deleteEvent := \<lparr>deleteType = DeleteEventResourceUpdate,
                                    deleteOperation = op,
                                    deleteObject = pruneObject (pruneEvent msg)\<rparr>\<rparr>))"

text \<open>
  \<open>d.PruneOptions.Prune\<close> is declared outside the sources at hand and is a parameter.
  What \<open>Run\<close> can observe of a call is the sequence of its steps, each a prune attempt
  issued against the cluster or an event sent on the channel it was given, and the error
  it returns.
\<close>

datatype prune_step = Attempt ObjMetadata | Send Event

record pruning =
  steps :: "prune_step list"
  pruneErr :: "error option"

record Options =
  optDryRunStrategy :: DryRunStrategy
  PropagationPolicy :: string

definition DeletePropagationBackground :: string where
  "DeletePropagationBackground = ''Background''"

text \<open>
  The \<open>Destroyer\<close>, by what its collaborators answer: \<open>d.ApplyOptions.GetObjects()\<close>,
  \<open>d.PruneOptions.Prune\<close> and \<open>d.invClient.DeleteInventoryObj\<close>.
\<close>

record Destroyer =
  GetObjects :: "Info option list \<times> error option"
  Prune :: "Info option list \<Rightarrow> Options \<Rightarrow> pruning"
  DeleteInventoryObj :: "Info option \<Rightarrow> error option"
  dryRunStrategy :: DryRunStrategy

text \<open>The calls a run makes on its collaborators, in the order it makes them.\<close>

datatype call =
    SetDryRunStrategy DryRunStrategy
  | CallGetObjects
  | CallPrune "Info option list" Options
  | PruneAttempt ObjMetadata
  | CallDeleteInventoryObj "Info option" "error option"

text \<open>
  \<open>Prune\<close> running against the goroutine that \<open>runPruneEventTransformer\<close> starts.
  One goroutine forwards the messages, so they reach the public channel relabelled and in
  the order \<open>Prune\<close> sent them.  The result is the prune attempts issued, the events
  forwarded to the public channel, and the message of the panic if the transformer
  panicked.  A panic in a goroutine ends the process: the steps of \<open>Prune\<close> after the
  message that panics are taken as not done (in the program they race with the end of
  the process).
\<close>

fun runPruneEventTransformer :: "prune_step list \<Rightarrow> call list \<times> Event list \<times> string option" where
  "runPruneEventTransformer [] = ([], [], None)"
| "runPruneEventTransformer (Attempt m # ss) =
     (case runPruneEventTransformer ss of (cs, es, pn) \<Rightarrow> (PruneAttempt m # cs, es, pn))"
| "runPruneEventTransformer (Send msg # ss) =
     (case transformMessage msg of
        Panic m \<Rightarrow> ([], [], Some m)
      | Return e \<Rightarrow> (case runPruneEventTransformer ss of (cs, es, pn) \<Rightarrow> (cs, e # es, pn)))"

text \<open>
  A run of the destroyer, read by a consumer that drains the channel: the events sent on
  the public channel in order, whether the channel is closed at the end (it is not when
  the process panicked), and the calls made.
\<close>

record run =
  events :: "Event list"
  closed :: bool
  calls :: "call list"

definition errorEventOf :: "error \<Rightarrow> Event" where
  "errorEventOf e = zeroEvent\<lparr>Type := ErrorType, errorEvent := \<lparr>Err = Some e\<rparr>\<rparr>"

definition Run ::
  "string \<Rightarrow> (Info option \<Rightarrow> unstructured option) \<Rightarrow> Destroyer \<Rightarrow> run" where
  "Run lbl toU d =
     (let cs0 = [SetDryRunStrategy (dryRunStrategy d), CallGetObjects] in
      case GetObjects d of
        (infos, Some err) \<Rightarrow>
          \<lparr>events = [errorEventOf (WrapPrefix err ''error reading resource manifests'')],
           closed = True, calls = cs0\<rparr>
      | (infos, None) \<Rightarrow>
          (case SplitInfos lbl toU infos of
             (invInfo, _, Some err) \<Rightarrow>
               \<lparr>events = [errorEventOf (WrapPrefix err ''error clearing inventory object'')],
                closed = True, calls = cs0\<rparr>
           | (invInfo, _, None) \<Rightarrow>
               (let infos = [invInfo];
                    opts = \<lparr>optDryRunStrategy = dryRunStrategy d,
                            PropagationPolicy = DeletePropagationBackground\<rparr>;
                    r = Prune d infos opts
                in case runPruneEventTransformer (steps r) of
                     (cs, es, Some m) \<Rightarrow>
                       \<lparr>events = es, closed = False, calls = cs0 @ CallPrune infos opts # cs\<rparr>
                   | (cs, es, None) \<Rightarrow>
                       (let cs1 = cs0 @ CallPrune infos opts # cs
                                  @ (if invInfo \<noteq> None
                                     then [CallDeleteInventoryObj invInfo (DeleteInventoryObj d invInfo)]
                                     else [])
                        in case pruneErr r of
                             Some err \<Rightarrow>
                               \<lparr>events = es @ [errorEventOf (WrapPrefix err ''error pruning resources'')],
                                closed = True, calls = cs1\<rparr>
                           | None \<Rightarrow>
                               \<lparr>events = es @ [zeroEvent\<lparr>Type := DeleteType,
                                                   deleteEvent := (deleteEvent zeroEvent)
                                                     \<lparr>deleteType := DeleteEventCompleted\<rparr>\<rparr>],
                                closed = True, calls = cs1\<rparr>))))"

text \<open>The messages and the prune attempts among the steps of a call of \<open>Prune\<close>.\<close>

fun sent :: "prune_step list \<Rightarrow> Event list" where
  "sent [] = []"
| "sent (Attempt m # ss) = sent ss"
| "sent (Send msg # ss) = msg # sent ss"

fun attempts :: "prune_step list \<Rightarrow> ObjMetadata list" where
  "attempts [] = []"
| "attempts (Attempt m # ss) = m # attempts ss"
| "attempts (Send msg # ss) = attempts ss"

section \<open>Predicates on events\<close>

text \<open>
  A prune resource update with the given operation: what the summary line counts.
\<close>

definition isPruneUpdate :: "PruneEventOperation \<Rightarrow> Event \<Rightarrow> bool" where
  "isPruneUpdate op e =
     (Type e = PruneType \<and> pruneType (pruneEvent e) = PruneEventResourceUpdate
      \<and> pruneOperation (pruneEvent e) = op)"

text \<open>
  The events the printer processes without a panic: a resource update carries an object,
  an apply update carries one of the four operations \<open>inc\<close> counts, and a status event
  carries the resource (and the error) that \<open>processStatusEvent\<close> dereferences.
\<close>

definition counted :: "ApplyEventOperation \<Rightarrow> bool" where
  "counted op = (op = ServersideApplied \<or> op = Created \<or> op = Unchanged \<or> op = Configured)"

definition printable :: "Event \<Rightarrow> bool" where
  "printable e =
     (case Type e of
        ApplyType \<Rightarrow>
          (if applyType (applyEvent e) = ApplyEventResourceUpdate
           then applyObject (applyEvent e) \<noteq> None \<and> counted (applyOperation (applyEvent e))
           else True)
      | StatusType \<Rightarrow>
          (if pollEventType (statusEvent e) = ResourceUpdateEvent
           then Resource (statusEvent e) \<noteq> None
           else if pollEventType (statusEvent e) = ErrorEvent
           then Resource (statusEvent e) \<noteq> None \<and> Error (statusEvent e) \<noteq> None
           else True)
      | PruneType \<Rightarrow>
          (if pruneType (pruneEvent e) = PruneEventResourceUpdate
           then pruneObject (pruneEvent e) \<noteq> None else True)
      | DeleteType \<Rightarrow>
          (if deleteType (deleteEvent e) = DeleteEventResourceUpdate
           then deleteObject (deleteEvent e) \<noteq> None else True)
      | _ \<Rightarrow> True)"

text \<open>Every status event kept in \<open>latestStatus\<close> has its resource.\<close>

definition statusKept :: "printer \<Rightarrow> bool" where
  "statusKept st = list_all (\<lambda>(id', se). Resource se \<noteq> None) (latestStatus (stStatus st))"

text \<open>The state in which the loop ends.\<close>

fun endState :: "loop_end \<Rightarrow> printer" where
  "endState (Drained st) = st"
| "endState (Stopped err st rest) = st"
| "endState (Panicked msg st) = st"

section \<open>The relabelling, in the spec's words\<close>

text \<open>
  The Delete event the spec names for a Prune event: a resource update with the same
  object, \<open>Pruned\<close> relabelled \<open>Deleted\<close> and \<open>PruneSkipped\<close> relabelled \<open>DeleteSkipped\<close>.
  It is compared below with what \<open>Run\<close> sends.
\<close>

definition relabelled :: "Event \<Rightarrow> Event" where
  "relabelled msg =
     zeroEvent\<lparr>Type := DeleteType,
       deleteEvent :=
         \<lparr>deleteType = DeleteEventResourceUpdate,
          deleteOperation =
            (case pruneOperation (pruneEvent msg) of
               Pruned \<Rightarrow> Deleted
             | PruneSkipped \<Rightarrow> DeleteSkipped
             | OtherPruneEventOperation i \<Rightarrow> OtherDeleteEventOperation i),
          deleteObject = pruneObject (pruneEvent msg)\<rparr>\<rparr>"

text \<open>A message whose prune operation is one of the two declared constants.\<close>

definition declaredPrune :: "Event \<Rightarrow> bool" where
  "declaredPrune msg =
     (pruneOperation (pruneEvent msg) = Pruned \<or> pruneOperation (pruneEvent msg) = PruneSkipped)"

text \<open>The options \<open>Run\<close> hands to \<open>Prune\<close>.\<close>

abbreviation pruneOptions :: "Destroyer \<Rightarrow> Options" where
  "pruneOptions d \<equiv>
     \<lparr>optDryRunStrategy = dryRunStrategy d, PropagationPolicy = DeletePropagationBackground\<rparr>"

section \<open>Example objects\<close>

text \<open>
  The objects, infos and collaborators at which the theorems below are instantiated: a
  deployment, two inventory config maps, a config map whose inventory label is blank,
  a label key, and \<open>InfoToUnstructured\<close> as the projection to the object.
\<close>

definition exampleLabel :: string where
  "exampleLabel = ''cli-utils.sigs.k8s.io/inventory-id''"

definition deploymentWeb :: unstructured where
  "deploymentWeb =
     \<lparr>objGroupKind = \<lparr>Group = ''apps'', Kind = ''Deployment''\<rparr>, objName = ''web'',
      objLabels = Map.empty\<rparr>"

definition inventoryCM :: unstructured where
  "inventoryCM =
     \<lparr>objGroupKind = \<lparr>Group = [], Kind = ''ConfigMap''\<rparr>, objName = ''inventory'',
      objLabels = [exampleLabel \<mapsto> ''app-1'']\<rparr>"

definition inventoryCM2 :: unstructured where
  "inventoryCM2 =
     \<lparr>objGroupKind = \<lparr>Group = [], Kind = ''ConfigMap''\<rparr>, objName = ''inventory-2'',
      objLabels = [exampleLabel \<mapsto> ''app-2'']\<rparr>"

definition blankCM :: unstructured where
  "blankCM =
     \<lparr>objGroupKind = \<lparr>Group = [], Kind = ''ConfigMap''\<rparr>, objName = ''blank'',
      objLabels = [exampleLabel \<mapsto> ''  '']\<rparr>"

definition nbspCM :: unstructured where
  "nbspCM =
     \<lparr>objGroupKind = \<lparr>Group = [], Kind = ''ConfigMap''\<rparr>, objName = ''nbsp'',
      objLabels = [exampleLabel \<mapsto> [CHR 0xC2, CHR 0xA0]]\<rparr>"

definition exampleRandomStr :: "64 word \<Rightarrow> string" where
  "exampleRandomStr seed = ''00427131''"

definition infoOf :: "unstructured \<Rightarrow> Info option" where
  "infoOf u = Some \<lparr>Name = objName u, Object = Some (MetaObject u)\<rparr>"

definition exampleToU :: "Info option \<Rightarrow> unstructured option" where
  "exampleToU info =
     (case info of
        None \<Rightarrow> None
      | Some i \<Rightarrow> (case Object i of Some (MetaObject u) \<Rightarrow> Some u | _ \<Rightarrow> None))"

text \<open>Events as a producer builds them: resource updates on an object, and phase ends.\<close>

definition applyUpdate :: "ApplyEventOperation \<Rightarrow> unstructured \<Rightarrow> Event" where
  "applyUpdate op u =
     zeroEvent\<lparr>Type := ApplyType,
       applyEvent := \<lparr>applyType = ApplyEventResourceUpdate, applyOperation = op,
                      applyObject = Some (MetaObject u)\<rparr>\<rparr>"

definition pruneUpdate :: "PruneEventOperation \<Rightarrow> unstructured \<Rightarrow> Event" where
  "pruneUpdate op u =
     zeroEvent\<lparr>Type := PruneType,
       pruneEvent := \<lparr>pruneType = PruneEventResourceUpdate, pruneOperation = op,
                      pruneObject = Some (MetaObject u)\<rparr>\<rparr>"

definition pruneCompleted :: Event where
  "pruneCompleted =
     zeroEvent\<lparr>Type := PruneType,
       pruneEvent := (pruneEvent zeroEvent)\<lparr>pruneType := PruneEventCompleted\<rparr>\<rparr>"

definition deleteUpdate :: "DeleteEventOperation \<Rightarrow> unstructured \<Rightarrow> Event" where
  "deleteUpdate op u =
     zeroEvent\<lparr>Type := DeleteType,
       deleteEvent := \<lparr>deleteType = DeleteEventResourceUpdate, deleteOperation = op,
                       deleteObject = Some (MetaObject u)\<rparr>\<rparr>"

definition deleteCompleted :: Event where
  "deleteCompleted =
     zeroEvent\<lparr>Type := DeleteType,
       deleteEvent := (deleteEvent zeroEvent)\<lparr>deleteType := DeleteEventCompleted\<rparr>\<rparr>"

text \<open>
  A destroyer whose manifests are the deployment and the inventory config map, whose
  prune engine behaves as \<open>pr\<close>, and whose client answers the deletion of the inventory
  object with \<open>del\<close>.
\<close>

definition metaOf :: "unstructured \<Rightarrow> ObjMetadata" where
  "metaOf u = \<lparr>mdNamespace = ''default'', mdName = objName u, mdGroupKind = objGroupKind u\<rparr>"

definition exampleDestroyer :: "pruning \<Rightarrow> error option \<Rightarrow> Destroyer" where
  "exampleDestroyer pr del =
     \<lparr>GetObjects = ([infoOf deploymentWeb, infoOf inventoryCM], None),
      Prune = (\<lambda>infos opts. pr),
      DeleteInventoryObj = (\<lambda>info. del),
      dryRunStrategy = DryRunNone\<rparr>"

definition examplePruning :: "error option \<Rightarrow> pruning" where
  "examplePruning err =
     \<lparr>steps = [Attempt (metaOf deploymentWeb), Send (pruneUpdate Pruned deploymentWeb),
               Attempt (metaOf blankCM), Send (pruneUpdate PruneSkipped blankCM)],
      pruneErr = err\<rparr>"

section \<open>Properties of package inventory\<close>

subsection \<open>Unfolding the examples\<close>

lemmas example_defs =
  exampleLabel_def deploymentWeb_def inventoryCM_def inventoryCM2_def blankCM_def nbspCM_def
  exampleRandomStr_def infoOf_def exampleToU_def

lemmas example_events =
  applyUpdate_def pruneUpdate_def pruneCompleted_def deleteUpdate_def deleteCompleted_def
  errorEventOf_def zeroEvent_def

lemmas example_destroyer = metaOf_def exampleDestroyer_def examplePruning_def

subsection \<open>White space and the two split loops\<close>

lemma runeWidth_positive:
  assumes "runeWidth table s \<noteq> 0"
  shows "\<exists>w\<in>set table. length w = runeWidth table s \<and> take (runeWidth table s) s = w"
proof (cases "filter (\<lambda>w. take (length w) s = w) table")
  case Nil
  with assms show ?thesis by (simp add: runeWidth_def)
next
  case (Cons w ws)
  then have "w \<in> set (filter (\<lambda>w. take (length w) s = w) table)" by simp
  then have "w \<in> set table" "take (length w) s = w" by simp_all
  moreover have "runeWidth table s = length w" using Cons by (simp add: runeWidth_def)
  ultimately show ?thesis by auto
qed

lemma dropRunes_Nil_concat:
  "dropRunes table s = [] \<Longrightarrow> \<exists>ws. set ws \<subseteq> set table \<and> s = concat ws"
proof (induction table s rule: dropRunes.induct)
  case (1 table)
  have "set [] \<subseteq> set table \<and> [] = concat ([] :: string list)" by simp
  then show ?case by blast
next
  case (2 table c cs)
  define k where "k = runeWidth table (c # cs)"
  have k: "k \<noteq> 0" using "2.prems" by (auto simp: k_def split: if_splits)
  then obtain w where w: "w \<in> set table" "length w = k" "take k (c # cs) = w"
    using runeWidth_positive [of table "c # cs"] by (auto simp: k_def)
  have d: "dropRunes table (drop (k - 1) cs) = []"
    using "2.prems" k by (simp add: k_def)
  from "2.IH" [OF _ d [unfolded k_def]] k obtain ws
    where ws: "set ws \<subseteq> set table" "drop (k - 1) cs = concat ws"
    by (auto simp: k_def)
  have "drop k (c # cs) = drop (k - 1) cs" using k by (cases k) simp_all
  then have "c # cs = w @ concat ws"
    using w(3) ws(2) by (metis append_take_drop_id)
  then have "set (w # ws) \<subseteq> set table \<and> c # cs = concat (w # ws)"
    using w(1) ws(1) by simp
  then show ?case by blast
qed

lemma spaceRunes_length:
  assumes "w \<in> set spaceRunes"
  shows "w \<noteq> [] \<and> length w =
     (if hd w = CHR 0xC2 then 2
      else if hd w = CHR 0xE1 \<or> hd w = CHR 0xE2 \<or> hd w = CHR 0xE3 then 3 else 1)"
  using assms by (auto simp: spaceRunes_def)

lemma runeWidth_space:
  assumes "w \<in> set spaceRunes"
  shows "runeWidth spaceRunes (w @ r) = length w"
proof -
  define F where "F = filter (\<lambda>w'. take (length w') (w @ r) = w') spaceRunes"
  have "w \<in> set F" using assms by (simp add: F_def)
  then obtain w' ws where f: "F = w' # ws" by (cases F) auto
  then have "w' \<in> set F" by simp
  then have m: "w' \<in> set spaceRunes" "take (length w') (w @ r) = w'"
    by (simp_all add: F_def del: take_append)
  have ne: "w \<noteq> []" "w' \<noteq> []"
    using spaceRunes_length [OF assms] spaceRunes_length [OF m(1)] by simp_all
  have "hd (take (length w') (w @ r)) = hd w" using ne by (cases w; cases w') simp_all
  then have "hd w' = hd w" using m(2) by simp
  then have "length w' = length w"
    using spaceRunes_length [OF assms] spaceRunes_length [OF m(1)] by simp
  moreover have "runeWidth spaceRunes (w @ r) = (case F of [] \<Rightarrow> 0 | w' # _ \<Rightarrow> length w')"
    unfolding runeWidth_def F_def by (rule refl)
  ultimately show ?thesis using f by simp
qed

lemma dropRunes_space_concat:
  "set ws \<subseteq> set spaceRunes \<Longrightarrow> dropRunes spaceRunes (concat ws @ r) = dropRunes spaceRunes r"
proof (induction ws)
  case Nil
  then show ?case by simp
next
  case (Cons w ws)
  then have w: "w \<in> set spaceRunes" by simp
  have "w \<noteq> []" using spaceRunes_length [OF w] by simp
  then obtain c w' where cw: "w = c # w'" by (cases w) auto
  have "runeWidth spaceRunes (c # w' @ concat ws @ r) = length w"
    using runeWidth_space [OF w, of "concat ws @ r"] cw by simp
  then have "dropRunes spaceRunes (c # w' @ concat ws @ r) = dropRunes spaceRunes (concat ws @ r)"
    using cw by simp
  then show ?case using Cons cw by simp
qed

lemma runeWidth_Nil: "runeWidth table [] = 0"
proof (cases "filter (\<lambda>w. take (length w) [] = w) table")
  case Nil
  then show ?thesis by (simp add: runeWidth_def)
next
  case (Cons a as)
  then have "a \<in> set (filter (\<lambda>w. take (length w) [] = w) table)" by simp
  then have "a = []" by simp
  with Cons show ?thesis by (simp add: runeWidth_def)
qed

lemma runeWidth_dropRunes: "runeWidth table (dropRunes table s) = 0"
  by (induction table s rule: dropRunes.induct) (simp_all add: runeWidth_Nil)

lemma TrimSpace_Nil_iff:
  "TrimSpace s = [] \<longleftrightarrow> (\<exists>ws. set ws \<subseteq> set spaceRunes \<and> s = concat ws)"
proof
  assume "\<exists>ws. set ws \<subseteq> set spaceRunes \<and> s = concat ws"
  then obtain ws where "set ws \<subseteq> set spaceRunes" "s = concat ws" by blast
  then have "dropRunes spaceRunes s = []"
    using dropRunes_space_concat [of ws "[]"] by simp
  then show "TrimSpace s = []" by (simp add: TrimSpace_def)
next
  assume t: "TrimSpace s = []"
  define r where "r = dropRunes spaceRunes s"
  from t have "dropRunes (map rev spaceRunes) (rev r) = []" by (simp add: TrimSpace_def r_def)
  then obtain vs where vs: "set vs \<subseteq> set (map rev spaceRunes)" "rev r = concat vs"
    using dropRunes_Nil_concat by blast
  have "r = []"
  proof (rule ccontr)
    assume n: "r \<noteq> []"
    have r: "r = concat (map rev (rev vs))"
      using vs(2) by (metis rev_concat rev_rev_ident)
    have sub: "set (map rev (rev vs)) \<subseteq> set spaceRunes"
      using vs(1) by auto
    from n r obtain w ws where c: "map rev (rev vs) = w # ws"
      by (cases "map rev (rev vs)") auto
    then have "w \<in> set spaceRunes" using sub by simp
    then have "runeWidth spaceRunes (w @ concat ws) = length w" "w \<noteq> []"
      using runeWidth_space spaceRunes_length by blast+
    moreover have "r = w @ concat ws" using r c by simp
    moreover have "runeWidth spaceRunes r = 0"
      unfolding r_def by (rule runeWidth_dropRunes)
    ultimately show False by simp
  qed
  then show "\<exists>ws. set ws \<subseteq> set spaceRunes \<and> s = concat ws"
    using dropRunes_Nil_concat [of spaceRunes s] by (simp add: r_def)
qed

lemma TrimSpace_examples:
  "TrimSpace ''app-1'' = ''app-1''"
  "TrimSpace ''app-2'' = ''app-2''"
  "TrimSpace ''00427131'' = ''00427131''"
  "TrimSpace ''  '' = []"
  "TrimSpace [CHR 0xC2, CHR 0xA0] = []"
  "TrimSpace ([CHR 0xE2, CHR 0x80, CHR 0x83] @ ''app-1'' @ [CHR 0xC2, CHR 0x85, CHR 0x0A]) = ''app-1''"
  by (simp_all add: TrimSpace_def runeWidth_def spaceRunes_def)

lemma IsInventoryObject_iff:
  "IsInventoryObject lbl obj \<longleftrightarrow>
     (\<exists>u v. obj = Some u \<and> objLabels u lbl = Some v \<and> TrimSpace v \<noteq> [])"
  by (auto simp: IsInventoryObject_def retrieveInventoryLabel_def split: option.splits)

lemma SplitUnstructureds_loop_filter:
  "SplitUnstructureds_loop lbl objs invs resources =
     (invs @ filter (IsInventoryObject lbl) objs,
      resources @ filter (\<lambda>obj. \<not> IsInventoryObject lbl obj) objs)"
  by (induction objs arbitrary: invs resources) simp_all

lemma SplitInfos_loop_filter:
  "SplitInfos_loop lbl toU infos invs resources =
     (invs @ filter (\<lambda>info. present info \<and> IsInventoryObject lbl (toU info)) infos,
      resources @ filter (\<lambda>info. present info \<and> \<not> IsInventoryObject lbl (toU info)) infos)"
  by (induction infos arbitrary: invs resources) (simp_all add: present_def)





lemma SplitUnstructureds_filter:
  "SplitUnstructureds lbl objs =
     (let invs = filter (IsInventoryObject lbl) objs;
          resources = filter (\<lambda>obj. \<not> IsInventoryObject lbl obj) objs
      in if length invs = 0 then (None, resources, Some NoInventoryObjError)
         else if length invs > 1 then (None, resources, Some (MultipleInventoryObjError invs))
         else (invs ! 0, resources, None))"
  by (simp add: SplitUnstructureds_def SplitUnstructureds_loop_filter Let_def)

lemma SplitInfos_filter:
  "SplitInfos lbl toU infos =
     (let invs = filter (\<lambda>info. present info \<and> IsInventoryObject lbl (toU info)) infos;
          resources = filter (\<lambda>info. present info \<and> \<not> IsInventoryObject lbl (toU info)) infos
      in if length invs = 0 then (None, resources, Some NoInventoryObjError)
         else if length invs > 1 then (None, resources, Some (MultipleInventoryObjError (map toU invs)))
         else (invs ! 0, resources, None))"
  by (simp add: SplitInfos_def SplitInfos_loop_filter Let_def)

text \<open>
  C1.  Both splits return the marker and the resources by the number of markers in the
  input.  With exactly one marker the result is that marker, every non-marker entry in
  its input order, and no error; with none the error is \<open>NoInventoryObjError\<close>; with two
  or more it is \<open>MultipleInventoryObjError\<close>, whose payload is the list of all markers.
  \<open>SplitInfos\<close> skips an entry that is \<open>nil\<close> or has a \<open>nil\<close> object.
\<close>

theorem split_by_marker_count:
  "(\<forall>m. filter (IsInventoryObject lbl) objs = [m] \<longrightarrow>
       SplitUnstructureds lbl objs =
         (m, filter (\<lambda>obj. \<not> IsInventoryObject lbl obj) objs, None))
   \<and> (filter (IsInventoryObject lbl) objs = [] \<longrightarrow>
       SplitUnstructureds lbl objs =
         (None, filter (\<lambda>obj. \<not> IsInventoryObject lbl obj) objs, Some NoInventoryObjError))
   \<and> (2 \<le> length (filter (IsInventoryObject lbl) objs) \<longrightarrow>
       SplitUnstructureds lbl objs =
         (None, filter (\<lambda>obj. \<not> IsInventoryObject lbl obj) objs,
          Some (MultipleInventoryObjError (filter (IsInventoryObject lbl) objs))))
   \<and> (\<forall>m. filter (\<lambda>info. present info \<and> IsInventoryObject lbl (toU info)) infos = [m] \<longrightarrow>
       SplitInfos lbl toU infos =
         (m, filter (\<lambda>info. present info \<and> \<not> IsInventoryObject lbl (toU info)) infos, None))
   \<and> (filter (\<lambda>info. present info \<and> IsInventoryObject lbl (toU info)) infos = [] \<longrightarrow>
       SplitInfos lbl toU infos =
         (None, filter (\<lambda>info. present info \<and> \<not> IsInventoryObject lbl (toU info)) infos,
          Some NoInventoryObjError))
   \<and> (2 \<le> length (filter (\<lambda>info. present info \<and> IsInventoryObject lbl (toU info)) infos) \<longrightarrow>
       SplitInfos lbl toU infos =
         (None, filter (\<lambda>info. present info \<and> \<not> IsInventoryObject lbl (toU info)) infos,
          Some (MultipleInventoryObjError
            (map toU (filter (\<lambda>info. present info \<and> IsInventoryObject lbl (toU info)) infos)))))"
proof (intro conjI allI impI)
  fix m
  assume "filter (IsInventoryObject lbl) objs = [m]"
  then show "SplitUnstructureds lbl objs =
      (m, filter (\<lambda>obj. \<not> IsInventoryObject lbl obj) objs, None)"
    by (simp add: SplitUnstructureds_filter)
next
  assume "filter (IsInventoryObject lbl) objs = []"
  then show "SplitUnstructureds lbl objs =
      (None, filter (\<lambda>obj. \<not> IsInventoryObject lbl obj) objs, Some NoInventoryObjError)"
    by (simp add: SplitUnstructureds_filter)
next
  assume "2 \<le> length (filter (IsInventoryObject lbl) objs)"
  then show "SplitUnstructureds lbl objs =
      (None, filter (\<lambda>obj. \<not> IsInventoryObject lbl obj) objs,
       Some (MultipleInventoryObjError (filter (IsInventoryObject lbl) objs)))"
    by (auto simp add: SplitUnstructureds_filter Let_def)
next
  fix m
  assume "filter (\<lambda>info. present info \<and> IsInventoryObject lbl (toU info)) infos = [m]"
  then show "SplitInfos lbl toU infos =
      (m, filter (\<lambda>info. present info \<and> \<not> IsInventoryObject lbl (toU info)) infos, None)"
    by (simp add: SplitInfos_filter)
next
  assume "filter (\<lambda>info. present info \<and> IsInventoryObject lbl (toU info)) infos = []"
  then show "SplitInfos lbl toU infos =
      (None, filter (\<lambda>info. present info \<and> \<not> IsInventoryObject lbl (toU info)) infos,
       Some NoInventoryObjError)"
    by (simp add: SplitInfos_filter)
next
  assume "2 \<le> length (filter (\<lambda>info. present info \<and> IsInventoryObject lbl (toU info)) infos)"
  then show "SplitInfos lbl toU infos =
      (None, filter (\<lambda>info. present info \<and> \<not> IsInventoryObject lbl (toU info)) infos,
       Some (MultipleInventoryObjError
         (map toU (filter (\<lambda>info. present info \<and> IsInventoryObject lbl (toU info)) infos))))"
    by (auto simp add: SplitInfos_filter Let_def)
qed

theorem split_by_marker_count_witness:
  "SplitUnstructureds exampleLabel [Some deploymentWeb, Some inventoryCM, None]
     = (Some inventoryCM, [Some deploymentWeb, None], None)
   \<and> SplitUnstructureds exampleLabel [Some deploymentWeb]
     = (None, [Some deploymentWeb], Some NoInventoryObjError)
   \<and> SplitUnstructureds exampleLabel [Some inventoryCM, Some deploymentWeb, Some inventoryCM2]
     = (None, [Some deploymentWeb],
        Some (MultipleInventoryObjError [Some inventoryCM, Some inventoryCM2]))
   \<and> SplitInfos exampleLabel exampleToU [infoOf deploymentWeb, None, infoOf inventoryCM]
     = (infoOf inventoryCM, [infoOf deploymentWeb], None)
   \<and> SplitInfos exampleLabel exampleToU [infoOf deploymentWeb]
     = (None, [infoOf deploymentWeb], Some NoInventoryObjError)
   \<and> SplitInfos exampleLabel exampleToU [infoOf inventoryCM, infoOf deploymentWeb, infoOf inventoryCM2]
     = (None, [infoOf deploymentWeb],
        Some (MultipleInventoryObjError [Some inventoryCM, Some inventoryCM2]))"
  using split_by_marker_count [where lbl = exampleLabel and toU = exampleToU
      and objs = "[Some deploymentWeb, Some inventoryCM, None]"
      and infos = "[infoOf deploymentWeb, None, infoOf inventoryCM]"]
    split_by_marker_count [where lbl = exampleLabel and toU = exampleToU
      and objs = "[Some deploymentWeb]" and infos = "[infoOf deploymentWeb]"]
    split_by_marker_count [where lbl = exampleLabel and toU = exampleToU
      and objs = "[Some inventoryCM, Some deploymentWeb, Some inventoryCM2]"
      and infos = "[infoOf inventoryCM, infoOf deploymentWeb, infoOf inventoryCM2]"]
  by (simp add: IsInventoryObject_iff TrimSpace_examples present_def example_defs)
subsection \<open>The legacy name and its suffix\<close>

lemma HasSuffix_set: "HasSuffix s suf \<Longrightarrow> set suf \<subseteq> set s"
  unfolding HasSuffix_def by (metis set_drop_subset)

lemma legacy_no_dash_suffix: "\<not> HasSuffix legacyInvName (''-'' @ t)"
proof
  assume "HasSuffix legacyInvName (''-'' @ t)"
  then have "set (''-'' @ t) \<subseteq> set legacyInvName" by (rule HasSuffix_set)
  then have "CHR ''-'' \<in> set legacyInvName" by simp
  then show False by (simp add: legacyInvName_def)
qed

lemma HasSuffix_append: "HasSuffix (n @ suf) suf"
  by (simp add: HasSuffix_def)

lemma addSuffixToName_fresh:
  assumes "Object i = Some (MetaObject u)" "objName u = Name i" "TrimSpace s \<noteq> []"
    "\<not> HasSuffix (Name i) (''-'' @ TrimSpace s)"
  shows "addSuffixToName (Some i) s =
     Return (None, Some (i\<lparr>Name := Name i @ ''-'' @ TrimSpace s,
       Object := Some (MetaObject (u\<lparr>objName := Name i @ ''-'' @ TrimSpace s\<rparr>))\<rparr>))"
  using assms by (simp add: addSuffixToName_def Let_def)

lemma addSuffixToName_repeated:
  assumes "Object i = Some (MetaObject u)" "objName u = Name i" "TrimSpace s \<noteq> []"
    "HasSuffix (Name i) (''-'' @ TrimSpace s)"
  shows "addSuffixToName (Some i) s =
     Return (Some (Errorf (''name already has suffix: '' @ Name i)), Some i)"
  using assms by (simp add: addSuffixToName_def Let_def)

lemma fixLegacy_other_name:
  assumes "Object i = Some (MetaObject u)" "Name i \<noteq> legacyInvName" "objName u \<noteq> legacyInvName"
  shows "fixLegacyInventoryName RandomStr seed (Some i) = Return (None, Some i)"
  using assms by (simp add: fixLegacyInventoryName_def Let_def)

text \<open>
  C5, as amended.  A marker whose name is the legacy default name both in the \<open>Info\<close>
  and in the object gets \<open>-\<close> and the trimmed random string appended, provided the
  random string is not blank.  It is appended once: \<open>fixLegacyInventoryName\<close> on the
  result changes nothing, and \<open>addSuffixToName\<close> with the same suffix is rejected.  When
  only one of the two names is the legacy default name, or the random string is blank,
  \<open>fixLegacyInventoryName\<close> returns an error.  Appending a suffix to a name that already
  ends in it is an error, and appending a suffix that is empty or white space only is an
  error.  In every error case the \<open>Info\<close> and its object are left as they were.
\<close>

theorem legacy_name_suffix:
  "(Object i = Some (MetaObject u) \<and> Name i = legacyInvName \<and> objName u = legacyInvName
      \<and> TrimSpace (RandomStr seed) \<noteq> [] \<longrightarrow>
      (let name' = legacyInvName @ ''-'' @ TrimSpace (RandomStr seed);
           i' = i\<lparr>Name := name', Object := Some (MetaObject (u\<lparr>objName := name'\<rparr>))\<rparr>
       in fixLegacyInventoryName RandomStr seed (Some i) = Return (None, Some i')
          \<and> fixLegacyInventoryName RandomStr' seed' (Some i') = Return (None, Some i')
          \<and> addSuffixToName (Some i') (RandomStr seed) =
              Return (Some (Errorf (''name already has suffix: '' @ name')), Some i')))
   \<and> (Object i = Some (MetaObject u) \<and> (Name i = legacyInvName \<or> objName u = legacyInvName)
      \<and> objName u \<noteq> Name i \<and> TrimSpace (RandomStr seed) \<noteq> [] \<longrightarrow>
      fixLegacyInventoryName RandomStr seed (Some i) =
        Return (Some (Errorf (''inventory object ('' @ objName u @ '') and resource.Info (''
                        @ Name i @ '') have different names'')), Some i))
   \<and> (Object i = Some (MetaObject u) \<and> (Name i = legacyInvName \<or> objName u = legacyInvName)
      \<and> TrimSpace (RandomStr seed) = [] \<longrightarrow>
      fixLegacyInventoryName RandomStr seed (Some i) =
        Return (Some (Errorf ''passed empty suffix''), Some i))
   \<and> (Object i = Some (MetaObject u) \<and> objName u = Name i \<and> TrimSpace s \<noteq> []
      \<and> HasSuffix (Name i) (''-'' @ TrimSpace s) \<longrightarrow>
      addSuffixToName (Some i) s =
        Return (Some (Errorf (''name already has suffix: '' @ Name i)), Some i))
   \<and> (set ws \<subseteq> set spaceRunes \<longrightarrow>
      addSuffixToName info (concat ws) =
        Return (Some (Errorf (if info = None then ''nil resource.Info'' else ''passed empty suffix'')),
                info))"
proof (intro conjI impI)
  assume h: "Object i = Some (MetaObject u) \<and> Name i = legacyInvName \<and> objName u = legacyInvName
      \<and> TrimSpace (RandomStr seed) \<noteq> []"
  define t where "t = TrimSpace (RandomStr seed)"
  define u' where "u' = u\<lparr>objName := legacyInvName @ ''-'' @ t\<rparr>"
  define i' where "i' = i\<lparr>Name := legacyInvName @ ''-'' @ t, Object := Some (MetaObject u')\<rparr>"
  have t: "t \<noteq> []" using h by (simp add: t_def)
  have "addSuffixToName (Some i) (RandomStr seed) = Return (None, Some i')"
    using h addSuffixToName_fresh [of i u "RandomStr seed"] legacy_no_dash_suffix [of t]
    by (simp add: t_def i'_def u'_def)
  then have 1: "fixLegacyInventoryName RandomStr seed (Some i) = Return (None, Some i')"
    using h by (simp add: fixLegacyInventoryName_def Let_def)
  have n: "Name i' = legacyInvName @ ''-'' @ t" and o: "Object i' = Some (MetaObject u')"
    and nu: "objName u' = Name i'"
    by (simp_all add: i'_def u'_def)
  have ne: "Name i' \<noteq> legacyInvName" using n by simp
  have 2: "fixLegacyInventoryName RandomStr' seed' (Some i') = Return (None, Some i')"
    using fixLegacy_other_name [OF o ne] nu ne by simp
  have "HasSuffix (Name i') (''-'' @ t)"
    using HasSuffix_append [of legacyInvName "''-'' @ t"] n by simp
  then have 3: "addSuffixToName (Some i') (RandomStr seed) =
      Return (Some (Errorf (''name already has suffix: '' @ Name i')), Some i')"
    using addSuffixToName_repeated [OF o nu, of "RandomStr seed"] t by (simp add: t_def)
  show "let name' = legacyInvName @ ''-'' @ TrimSpace (RandomStr seed);
           i' = i\<lparr>Name := name', Object := Some (MetaObject (u\<lparr>objName := name'\<rparr>))\<rparr>
       in fixLegacyInventoryName RandomStr seed (Some i) = Return (None, Some i')
          \<and> fixLegacyInventoryName RandomStr' seed' (Some i') = Return (None, Some i')
          \<and> addSuffixToName (Some i') (RandomStr seed) =
              Return (Some (Errorf (''name already has suffix: '' @ name')), Some i')"
    using 1 2 3 n unfolding Let_def i'_def u'_def t_def by simp
next
  assume "Object i = Some (MetaObject u) \<and> (Name i = legacyInvName \<or> objName u = legacyInvName)
      \<and> objName u \<noteq> Name i \<and> TrimSpace (RandomStr seed) \<noteq> []"
  then show "fixLegacyInventoryName RandomStr seed (Some i) =
        Return (Some (Errorf (''inventory object ('' @ objName u @ '') and resource.Info (''
                        @ Name i @ '') have different names'')), Some i)"
    by (auto simp: fixLegacyInventoryName_def addSuffixToName_def Let_def)
next
  assume "Object i = Some (MetaObject u) \<and> (Name i = legacyInvName \<or> objName u = legacyInvName)
      \<and> TrimSpace (RandomStr seed) = []"
  then show "fixLegacyInventoryName RandomStr seed (Some i) =
        Return (Some (Errorf ''passed empty suffix''), Some i)"
    by (auto simp: fixLegacyInventoryName_def addSuffixToName_def Let_def)
next
  assume "Object i = Some (MetaObject u) \<and> objName u = Name i \<and> TrimSpace s \<noteq> []
      \<and> HasSuffix (Name i) (''-'' @ TrimSpace s)"
  then show "addSuffixToName (Some i) s =
        Return (Some (Errorf (''name already has suffix: '' @ Name i)), Some i)"
    using addSuffixToName_repeated by blast
next
  assume "set ws \<subseteq> set spaceRunes"
  then have "TrimSpace (concat ws) = []" using TrimSpace_Nil_iff by blast
  then show "addSuffixToName info (concat ws) =
        Return (Some (Errorf (if info = None then ''nil resource.Info'' else ''passed empty suffix'')),
                info)"
    by (cases info) (simp_all add: addSuffixToName_def Let_def)
qed

theorem legacy_name_suffix_witness:
  "fixLegacyInventoryName exampleRandomStr 7 (infoOf inventoryCM)
     = Return (None, infoOf (inventoryCM\<lparr>objName := ''inventory-00427131''\<rparr>))
   \<and> fixLegacyInventoryName exampleRandomStr 8
        (infoOf (inventoryCM\<lparr>objName := ''inventory-00427131''\<rparr>))
     = Return (None, infoOf (inventoryCM\<lparr>objName := ''inventory-00427131''\<rparr>))
   \<and> addSuffixToName (infoOf (inventoryCM\<lparr>objName := ''inventory-00427131''\<rparr>)) ''00427131''
     = Return (Some (Errorf ''name already has suffix: inventory-00427131''),
               infoOf (inventoryCM\<lparr>objName := ''inventory-00427131''\<rparr>))
   \<and> addSuffixToName (infoOf inventoryCM) [CHR 0x20, CHR 0xC2, CHR 0xA0]
     = Return (Some (Errorf ''passed empty suffix''), infoOf inventoryCM)
   \<and> fixLegacyInventoryName exampleRandomStr 7 (Some \<lparr>Name = ''inventory-2'', Object = Some (MetaObject inventoryCM)\<rparr>)
     = Return (Some (Errorf
         ''inventory object (inventory) and resource.Info (inventory-2) have different names''),
         Some \<lparr>Name = ''inventory-2'', Object = Some (MetaObject inventoryCM)\<rparr>)
   \<and> fixLegacyInventoryName (\<lambda>seed. [CHR 0xC2, CHR 0xA0]) 7 (infoOf inventoryCM)
     = Return (Some (Errorf ''passed empty suffix''), infoOf inventoryCM)"
  using legacy_name_suffix [where i = "the (infoOf inventoryCM)" and u = inventoryCM
      and RandomStr = exampleRandomStr and seed = 7
      and RandomStr' = exampleRandomStr and seed' = 8
      and ws = "[[CHR 0x20], [CHR 0xC2, CHR 0xA0]]" and info = "infoOf inventoryCM"]
    legacy_name_suffix [where i = "the (infoOf (inventoryCM\<lparr>objName := ''inventory-00427131''\<rparr>))"
      and u = "inventoryCM\<lparr>objName := ''inventory-00427131''\<rparr>"
      and s = "''00427131''" and ws = "[]"]
    legacy_name_suffix [where i = "\<lparr>Name = ''inventory-2'', Object = Some (MetaObject inventoryCM)\<rparr>"
      and u = inventoryCM and RandomStr = exampleRandomStr and seed = 7 and ws = "[]"]
    legacy_name_suffix [where i = "the (infoOf inventoryCM)" and u = inventoryCM
      and RandomStr = "\<lambda>seed. [CHR 0xC2, CHR 0xA0]" and seed = 7 and ws = "[]"]
  by (simp add: Let_def TrimSpace_examples spaceRunes_def legacyInvName_def HasSuffix_def
      example_defs)

text \<open>
  The claim as stated, for a marker whose name is the legacy default name, fails when
  the object carries another name: the \<open>Info\<close> is named \<open>inventory\<close>, the guard of
  \<open>fixLegacyInventoryName\<close> holds, and \<open>addSuffixToName\<close> returns the error for different
  names and appends nothing.
\<close>

theorem legacy_name_suffix_counterexample:
  "Name \<lparr>Name = ''inventory'', Object = Some (MetaObject inventoryCM2)\<rparr> = legacyInvName
   \<and> fixLegacyInventoryName exampleRandomStr 7
        (Some \<lparr>Name = ''inventory'', Object = Some (MetaObject inventoryCM2)\<rparr>)
     = Return (Some (Errorf
         ''inventory object (inventory-2) and resource.Info (inventory) have different names''),
         Some \<lparr>Name = ''inventory'', Object = Some (MetaObject inventoryCM2)\<rparr>)"
  by (simp add: fixLegacyInventoryName_def addSuffixToName_def Let_def TrimSpace_examples
      legacyInvName_def example_defs)

text \<open>
  C10.  For an \<open>Info\<close> whose own name and whose object's name both differ from the legacy
  default name \<open>inventory\<close>, \<open>fixLegacyInventoryName\<close> returns \<open>nil\<close> and leaves the
  \<open>Info\<close> and its object unchanged.
\<close>

theorem other_names_untouched:
  "legacyInvName = ''inventory'' \<and>
   (Object i = Some (MetaObject u) \<and> Name i \<noteq> ''inventory'' \<and> objName u \<noteq> ''inventory'' \<longrightarrow>
      fixLegacyInventoryName RandomStr seed (Some i) = Return (None, Some i))"
  using fixLegacy_other_name [of i u RandomStr seed] by (simp add: legacyInvName_def)

theorem other_names_untouched_witness:
  "fixLegacyInventoryName (\<lambda>seed. ''00427131'') 7 (infoOf inventoryCM2)
     = Return (None, infoOf inventoryCM2)"
  using other_names_untouched [where i = "the (infoOf inventoryCM2)" and u = inventoryCM2
      and RandomStr = "\<lambda>seed. ''00427131''" and seed = 7]
  by (simp add: example_defs)

section \<open>Properties of the printer\<close>

lemma Print_loop_append:
  "Print_loop p (xs @ ys) st =
     (case Print_loop p xs st of
        Drained st' \<Rightarrow> Print_loop p ys st'
      | Stopped err st' rest \<Rightarrow> Stopped err st' (rest @ ys)
      | Panicked msg st' \<Rightarrow> Panicked msg st')"
  by (induction xs arbitrary: st) (auto split: exec.splits sum.splits)

lemma processPruneEvent_counts:
  assumes "processPruneEvent pe ps p = Return (ps', ws)"
  shows "pruned ps' = pruned ps
           + (if pruneType pe = PruneEventResourceUpdate \<and> pruneOperation pe = Pruned then 1 else 0)"
    and "pruneStats_skipped ps' = pruneStats_skipped ps
           + (if pruneType pe = PruneEventResourceUpdate \<and> pruneOperation pe = PruneSkipped then 1 else 0)"
  using assms
  by (auto simp: processPruneEvent_def incPruned_def pruneStats_incSkipped_def Let_def
      split: PruneEventType.splits option.splits PruneEventOperation.splits)

lemma Print_step_counts:
  assumes "Print_step p e st = Return (Inr st')"
  shows "pruned (stPrune st') = pruned (stPrune st) + (if isPruneUpdate Pruned e then 1 else 0)"
    and "pruneStats_skipped (stPrune st') =
           pruneStats_skipped (stPrune st) + (if isPruneUpdate PruneSkipped e then 1 else 0)"
  using assms processPruneEvent_counts [of "pruneEvent e" "stPrune st" p]
  by (auto simp: Print_step_def isPruneUpdate_def split: EventType.splits exec.splits prod.splits)

lemma Print_loop_counts:
  assumes "Print_loop p ch st = Drained st'"
  shows "pruned (stPrune st') =
           pruned (stPrune st) + of_nat (length (filter (isPruneUpdate Pruned) ch))
         \<and> pruneStats_skipped (stPrune st') =
           pruneStats_skipped (stPrune st) + of_nat (length (filter (isPruneUpdate PruneSkipped) ch))"
  using assms
proof (induction ch arbitrary: st)
  case Nil
  then show ?case by simp
next
  case (Cons e ch)
  from Cons.prems obtain st1 where s: "Print_step p e st = Return (Inr st1)"
    and l: "Print_loop p ch st1 = Drained st'"
    by (auto split: exec.splits sum.splits)
  show ?case
    using Cons.IH [OF l] Print_step_counts [OF s] by (simp add: algebra_simps)
qed

lemma printAllStatus_kept:
  "list_all (\<lambda>(id', se). Resource se \<noteq> None) m \<Longrightarrow> \<exists>ws. printAllStatus m p = Return ws"
  by (induction m) (auto simp: printResourceStatus_def)

lemma mapStore_kept:
  "list_all P m \<Longrightarrow> P (k, v) \<Longrightarrow> list_all P (mapStore m k v)"
  by (induction m) auto

lemma inc_counted: "counted op \<Longrightarrow> \<exists>a'. inc a op = Return a'"
  by (auto simp: counted_def inc_def)

lemma processApplyEvent_returns:
  assumes "applyType ae = ApplyEventResourceUpdate \<longrightarrow> applyObject ae \<noteq> None \<and> counted (applyOperation ae)"
    and "list_all (\<lambda>(id', se). Resource se \<noteq> None) (latestStatus c)"
  shows "\<exists>as' ws. processApplyEvent ae as c p = Return (as', c\<lparr>printStatus := printStatus c \<or> applyType ae = ApplyEventCompleted\<rparr>, ws)"
proof (cases "applyType ae")
  case ApplyEventResourceUpdate
  with assms obtain obj where o: "applyObject ae = Some obj" and c: "counted (applyOperation ae)"
    by auto
  from inc_counted [OF c] obtain a' where "inc as (applyOperation ae) = Return a'" by blast
  with o ApplyEventResourceUpdate show ?thesis
    by (simp add: processApplyEvent_def Let_def)
next
  case ApplyEventCompleted
  from printAllStatus_kept [OF assms(2)] obtain ws where "printAllStatus (latestStatus c) p = Return ws"
    by blast
  with ApplyEventCompleted show ?thesis
    by (simp add: processApplyEvent_def Let_def)
next
  case (OtherApplyEventType x)
  then show ?thesis by (simp add: processApplyEvent_def)
qed

lemma processStatusEvent_returns:
  assumes "pollEventType se = ResourceUpdateEvent \<longrightarrow> Resource se \<noteq> None"
    and "pollEventType se = ErrorEvent \<longrightarrow> Resource se \<noteq> None \<and> Error se \<noteq> None"
    and "list_all (\<lambda>(id', se). Resource se \<noteq> None) (latestStatus sc)"
  shows "\<exists>sc' ws. processStatusEvent se sc p = Return (sc', ws)
           \<and> list_all (\<lambda>(id', se). Resource se \<noteq> None) (latestStatus sc')"
proof (cases "pollEventType se")
  case ResourceUpdateEvent
  with assms obtain r where r: "Resource se = Some r" by auto
  have "list_all (\<lambda>(id', se). Resource se \<noteq> None) (mapStore (latestStatus sc) (Identifier r) se)"
    using assms(3) r by (intro mapStore_kept) simp_all
  with ResourceUpdateEvent r show ?thesis
    by (simp add: processStatusEvent_def Let_def updateStatus_def printResourceStatus_def)
next
  case ErrorEvent
  with assms obtain r m where "Resource se = Some r" "Error se = Some m" by auto
  with ErrorEvent assms(3) show ?thesis
    by (simp add: processStatusEvent_def Let_def)
next
  case CompletedEvent
  with assms(3) show ?thesis by (simp add: processStatusEvent_def)
next
  case AbortedEvent
  with assms(3) show ?thesis by (simp add: processStatusEvent_def)
next
  case (OtherPollEventType x)
  with assms(3) show ?thesis by (simp add: processStatusEvent_def)
qed

lemma processPruneEvent_returns:
  assumes "pruneType pe = PruneEventResourceUpdate \<longrightarrow> pruneObject pe \<noteq> None"
  shows "\<exists>ps' ws. processPruneEvent pe ps p = Return (ps', ws)"
  using assms
  by (auto simp: processPruneEvent_def Let_def
      split: PruneEventType.splits PruneEventOperation.splits)

lemma processDeleteEvent_returns:
  assumes "deleteType de = DeleteEventResourceUpdate \<longrightarrow> deleteObject de \<noteq> None"
  shows "\<exists>ds' ws. processDeleteEvent de ds p = Return (ds', ws)"
  using assms
  by (auto simp: processDeleteEvent_def Let_def
      split: DeleteEventType.splits DeleteEventOperation.splits)

lemma Print_step_printable:
  assumes "printable e" "Type e \<noteq> ErrorType" "statusKept st"
  shows "\<exists>st'. Print_step p e st = Return (Inr st') \<and> statusKept st'"
proof (cases "Type e")
  case ApplyType
  have "\<exists>as' ws. processApplyEvent (applyEvent e) (stApply st) (stStatus st) p =
      Return (as', (stStatus st)\<lparr>printStatus := printStatus (stStatus st)
        \<or> applyType (applyEvent e) = ApplyEventCompleted\<rparr>, ws)"
    using assms ApplyType
    by (intro processApplyEvent_returns) (auto simp: printable_def statusKept_def)
  then show ?thesis
    using ApplyType assms(3) by (auto simp: Print_step_def statusKept_def)
next
  case StatusType
  have "\<exists>sc' ws. processStatusEvent (statusEvent e) (stStatus st) p = Return (sc', ws)
           \<and> list_all (\<lambda>(id', se). Resource se \<noteq> None) (latestStatus sc')"
    using assms StatusType
    by (intro processStatusEvent_returns) (auto simp: printable_def statusKept_def)
  then show ?thesis
    using StatusType by (auto simp: Print_step_def statusKept_def)
next
  case PruneType
  have "\<exists>ps' ws. processPruneEvent (pruneEvent e) (stPrune st) p = Return (ps', ws)"
    using assms PruneType by (intro processPruneEvent_returns) (auto simp: printable_def)
  then show ?thesis
    using PruneType assms(3) by (auto simp: Print_step_def statusKept_def)
next
  case DeleteType
  have "\<exists>ds' ws. processDeleteEvent (deleteEvent e) (stDelete st) p = Return (ds', ws)"
    using assms DeleteType by (intro processDeleteEvent_returns) (auto simp: printable_def)
  then show ?thesis
    using DeleteType assms(3) by (auto simp: Print_step_def statusKept_def)
next
  case InitType
  then show ?thesis using assms(3) by (simp add: Print_step_def)
next
  case ErrorType
  then show ?thesis using assms(2) by simp
next
  case (OtherEventType x)
  then show ?thesis using assms(3) by (simp add: Print_step_def)
qed

lemma Print_loop_printable:
  assumes "list_all (\<lambda>e. printable e \<and> Type e \<noteq> ErrorType) ch" "statusKept st"
  shows "\<exists>st'. Print_loop p ch st = Drained st' \<and> statusKept st'"
  using assms
proof (induction ch arbitrary: st)
  case Nil
  then show ?case by simp
next
  case (Cons e ch)
  then obtain st1 where s: "Print_step p e st = Return (Inr st1)" and k: "statusKept st1"
    using Print_step_printable [of e st p] by auto
  from Cons.IH [OF _ k] Cons.prems(1) obtain st' where "Print_loop p ch st1 = Drained st'"
    and "statusKept st'" by auto
  with s show ?case by simp
qed

lemma statusKept_newPrinter: "statusKept newPrinter"
  by (simp add: statusKept_def newPrinter_def)

lemma Print_step_Error: "Type e = ErrorType \<Longrightarrow> Print_step p e st = Return (Inl (Err (errorEvent e)))"
  by (simp add: Print_step_def)

lemma Print_step_Inl:
  assumes "Print_step p e st = Return (Inl err)"
  shows "Type e = ErrorType \<and> err = Err (errorEvent e)"
  using assms
  by (auto simp: Print_step_def split: EventType.splits exec.splits prod.splits)

lemma Print_loop_Stopped:
  assumes "Print_loop p ch st = Stopped err st' rest"
  shows "\<exists>e\<in>set ch. Type e = ErrorType"
  using assms
proof (induction ch arbitrary: st)
  case Nil
  then show ?case by simp
next
  case (Cons e ch)
  then show ?case
    using Print_step_Inl [of p e st] by (auto split: exec.splits sum.splits)
qed

lemma Print_Drained:
  assumes "list_all (\<lambda>x. Type x \<noteq> ErrorType) ch" "returned (Print ch s) = Return None"
  shows "\<exists>st. Print_loop (getPrintFunc s) ch newPrinter = Drained st"
proof (cases "Print_loop (getPrintFunc s) ch newPrinter")
  case (Drained st)
  then show ?thesis by simp
next
  case (Stopped err st rest)
  then have "\<exists>e\<in>set ch. Type e = ErrorType" by (rule Print_loop_Stopped)
  with assms(1) show ?thesis by (auto simp: list_all_iff)
next
  case (Panicked msg st)
  with assms(2) show ?thesis by (simp add: Print_def)
qed

lemma Print_step_written:
  assumes "Print_step p e st = Return (Inr st')"
  shows "\<exists>ws. written st' = written st @ ws"
  using assms
  by (auto simp: Print_step_def split: EventType.splits exec.splits prod.splits)

lemma Print_loop_written: "\<exists>ws. written (endState (Print_loop p ch st)) = written st @ ws"
proof (induction ch arbitrary: st)
  case Nil
  then show ?case by simp
next
  case (Cons e ch)
  show ?case
  proof (cases "Print_step p e st")
    case (Panic m)
    then show ?thesis by simp
  next
    case (Return r)
    show ?thesis
    proof (cases r)
      case (Inl err)
      with Return show ?thesis by simp
    next
      case (Inr st1)
      from Print_step_written [of p e st st1] Return Inr obtain ws1
        where "written st1 = written st @ ws1" by auto
      moreover from Cons.IH [of st1] obtain ws2
        where "written (endState (Print_loop p ch st1)) = written st1 @ ws2" by blast
      ultimately show ?thesis using Return Inr by simp
    qed
  qed
qed

lemma printedLines_endState:
  "printedLines (Print ch s) = written (endState (Print_loop (getPrintFunc s) ch newPrinter))"
  by (simp add: Print_def Let_def split: loop_end.splits)

lemma Print_step_PruneCompleted:
  assumes "Type e = PruneType" "pruneType (pruneEvent e) = PruneEventCompleted"
  shows "Print_step p e st =
     Return (Inr (st\<lparr>written := written st @
       [p ''%d resource(s) pruned, %d skipped''
          [IntArg (pruned (stPrune st)), IntArg (pruneStats_skipped (stPrune st))]]\<rparr>))"
  using assms by (simp add: Print_step_def processPruneEvent_def)

lemma sint_of_nat_goint:
  assumes "n < 2 ^ 63"
  shows "sint (of_nat n :: goint) = int n"
proof -
  have "int n < 2 ^ 63" using assms by (simp add: of_nat_less_iff [of n "2 ^ 63", where ?'a = int, simplified])
  moreover have "- (2 ^ 63) \<le> int n" by simp
  ultimately have "signed_take_bit 63 (int n) = int n"
    by (simp add: signed_take_bit_int_eq_self)
  then show ?thesis by (simp add: signed_of_nat)
qed

lemmas printer_defs =
  Print_def Print_step_def processApplyEvent_def processPruneEvent_def processDeleteEvent_def
  processStatusEvent_def newPrinter_def Let_def inc_def incPruned_def pruneStats_incSkipped_def
  incDeleted_def deleteStats_incSkipped_def getPrintFunc_def ClientDryRun_def ServerDryRun_def
  GetObjectKind_def getName_def

text \<open>
  C7.  When \<open>Print\<close> reaches a \<open>PruneEventCompleted\<close> event, having consumed the events
  \<open>pre\<close> before it without an Error event and without a panic, the line it writes is
  the summary format with two counts: the number of prune resource updates in \<open>pre\<close> with
  operation \<open>Pruned\<close> and the number with operation \<open>PruneSkipped\<close>, as Go \<open>int\<close>s.  The
  counts depend on nothing but \<open>pre\<close>.  Below \<open>2 ^ 63\<close> the \<open>int\<close> that \<open>%d\<close> prints is
  the number itself.
\<close>

theorem prune_summary_counts:
  "(list_all (\<lambda>x. Type x \<noteq> ErrorType) pre \<and> returned (Print pre s) = Return None
      \<and> Type e = PruneType \<and> pruneType (pruneEvent e) = PruneEventCompleted \<longrightarrow>
      (\<exists>more. printedLines (Print (pre @ e # post) s) =
         printedLines (Print pre s)
         @ getPrintFunc s ''%d resource(s) pruned, %d skipped''
             [IntArg (of_nat (length (filter (isPruneUpdate Pruned) pre))),
              IntArg (of_nat (length (filter (isPruneUpdate PruneSkipped) pre)))]
         # more))
   \<and> (\<forall>n < 2 ^ 63. sint (of_nat n :: goint) = int n)"
proof (intro conjI impI allI)
  assume h: "list_all (\<lambda>x. Type x \<noteq> ErrorType) pre \<and> returned (Print pre s) = Return None
      \<and> Type e = PruneType \<and> pruneType (pruneEvent e) = PruneEventCompleted"
  define p where "p = getPrintFunc s"
  from h Print_Drained [of pre s] obtain st where d: "Print_loop p pre newPrinter = Drained st"
    by (auto simp: p_def)
  have c: "pruned (stPrune st) = of_nat (length (filter (isPruneUpdate Pruned) pre))"
    "pruneStats_skipped (stPrune st) = of_nat (length (filter (isPruneUpdate PruneSkipped) pre))"
    using Print_loop_counts [OF d] by (simp_all add: newPrinter_def)
  define l where "l = p ''%d resource(s) pruned, %d skipped''
      [IntArg (of_nat (length (filter (isPruneUpdate Pruned) pre))),
       IntArg (of_nat (length (filter (isPruneUpdate PruneSkipped) pre)))]"
  have s: "Print_step p e st = Return (Inr (st\<lparr>written := written st @ [l]\<rparr>))"
    using h Print_step_PruneCompleted [of e p st] c by (simp add: l_def)
  have "Print_loop p (pre @ e # post) newPrinter = Print_loop p post (st\<lparr>written := written st @ [l]\<rparr>)"
    using d s by (simp add: Print_loop_append)
  moreover obtain ws where
    "written (endState (Print_loop p post (st\<lparr>written := written st @ [l]\<rparr>))) = (written st @ [l]) @ ws"
    using Print_loop_written [of p post "st\<lparr>written := written st @ [l]\<rparr>"] by auto
  moreover have "printedLines (Print pre s) = written st"
    using d by (simp add: printedLines_endState p_def)
  ultimately have "printedLines (Print (pre @ e # post) s) = printedLines (Print pre s) @ l # ws"
    by (simp add: printedLines_endState p_def)
  then show "\<exists>more. printedLines (Print (pre @ e # post) s) =
         printedLines (Print pre s)
         @ getPrintFunc s ''%d resource(s) pruned, %d skipped''
             [IntArg (of_nat (length (filter (isPruneUpdate Pruned) pre))),
              IntArg (of_nat (length (filter (isPruneUpdate PruneSkipped) pre)))]
         # more"
    unfolding l_def p_def by blast
next
  fix n :: nat
  assume "n < 2 ^ 63"
  then show "sint (of_nat n :: goint) = int n" by (rule sint_of_nat_goint)
qed

theorem prune_summary_counts_witness:
  "printedLines (Print [pruneUpdate Pruned deploymentWeb, pruneUpdate PruneSkipped blankCM,
       pruneUpdate Pruned inventoryCM2, pruneCompleted, deleteCompleted] DryRunNone)
     = printedLines (Print [pruneUpdate Pruned deploymentWeb, pruneUpdate PruneSkipped blankCM,
         pruneUpdate Pruned inventoryCM2] DryRunNone)
       @ [Fprintf (''%d resource(s) pruned, %d skipped'' @ [CHR 0x0A]) [IntArg 2, IntArg 1],
          Fprintf (''%d resource(s) deleted, %d skipped'' @ [CHR 0x0A]) [IntArg 0, IntArg 0]]
   \<and> sint (2 :: goint) = 2"
  using prune_summary_counts [where s = DryRunNone and e = pruneCompleted
      and post = "[deleteCompleted]"
      and pre = "[pruneUpdate Pruned deploymentWeb, pruneUpdate PruneSkipped blankCM,
         pruneUpdate Pruned inventoryCM2]"]
  by (simp add: printer_defs isPruneUpdate_def example_events)

text \<open>
  C6, as amended.  On a sequence of events that the printer can process (every resource
  update carries its object, every apply update one of the four operations that \<open>inc\<close>
  counts, every status event the resource it is about) \<open>Print\<close> returns \<open>nil\<close> when
  the channel is closed and no event had the Error type.  When an Error event comes after
  such events, \<open>Print\<close> returns the error that event carries, reads no event after it
  and writes nothing more.
\<close>

theorem print_result:
  "(list_all (\<lambda>x. printable x \<and> Type x \<noteq> ErrorType) ch \<longrightarrow>
      returned (Print ch s) = Return None \<and> unread (Print ch s) = [])
   \<and> (list_all (\<lambda>x. printable x \<and> Type x \<noteq> ErrorType) pre \<and> Type e = ErrorType \<longrightarrow>
      returned (Print (pre @ e # post) s) = Return (Err (errorEvent e))
      \<and> unread (Print (pre @ e # post) s) = post
      \<and> printedLines (Print (pre @ e # post) s) = printedLines (Print pre s))"
proof (intro conjI impI)
  assume "list_all (\<lambda>x. printable x \<and> Type x \<noteq> ErrorType) ch"
  then obtain st where "Print_loop (getPrintFunc s) ch newPrinter = Drained st"
    using Print_loop_printable [OF _ statusKept_newPrinter] by blast
  then show "returned (Print ch s) = Return None" "unread (Print ch s) = []"
    by (simp_all add: Print_def)
next
  assume h: "list_all (\<lambda>x. printable x \<and> Type x \<noteq> ErrorType) pre \<and> Type e = ErrorType"
  then obtain st where d: "Print_loop (getPrintFunc s) pre newPrinter = Drained st"
    using Print_loop_printable [OF _ statusKept_newPrinter] by blast
  have "Print_loop (getPrintFunc s) (pre @ e # post) newPrinter = Stopped (Err (errorEvent e)) st post"
    using d h by (simp add: Print_loop_append Print_step_Error)
  then show "returned (Print (pre @ e # post) s) = Return (Err (errorEvent e))"
    "unread (Print (pre @ e # post) s) = post"
    "printedLines (Print (pre @ e # post) s) = printedLines (Print pre s)"
    using d by (simp_all add: Print_def)
qed

theorem print_result_witness:
  "returned (Print [applyUpdate Created deploymentWeb, pruneUpdate Pruned blankCM, pruneCompleted]
       DryRunNone) = Return None
   \<and> returned (Print [applyUpdate Created deploymentWeb,
         errorEventOf (External ''connection refused''), pruneCompleted] DryRunNone)
       = Return (Some (External ''connection refused''))
   \<and> unread (Print [applyUpdate Created deploymentWeb,
         errorEventOf (External ''connection refused''), pruneCompleted] DryRunNone)
       = [pruneCompleted]"
  using print_result [where s = DryRunNone
      and ch = "[applyUpdate Created deploymentWeb, pruneUpdate Pruned blankCM, pruneCompleted]"
      and pre = "[applyUpdate Created deploymentWeb]"
      and e = "errorEventOf (External ''connection refused'')"
      and post = "[pruneCompleted]"]
  by (simp add: printable_def counted_def example_events)

text \<open>
  The claim as stated, for every sequence of events, fails: an apply update whose
  operation is not among the four makes \<open>inc\<close> panic, so a channel that is closed
  without an Error event does not make \<open>Print\<close> return \<open>nil\<close>.
\<close>

theorem print_result_counterexample:
  "Type (applyUpdate (OtherApplyEventOperation 99) deploymentWeb) \<noteq> ErrorType
   \<and> returned (Print [applyUpdate (OtherApplyEventOperation 99) deploymentWeb] DryRunNone)
       = Panic ''unknown apply operation ApplyEventOperation(99)''"
  by (simp add: printer_defs example_events intToString_def natToString.simps)

subsection \<open>The switches that panic\<close>

text \<open>
  \<open>inc\<close> counts the four operations and panics on every other value;
  \<open>transformPruneOperation\<close> maps the two prune operations and panics exactly on a value
  that is no declared constant.
\<close>

lemma inc_increments:
  "inc a ServersideApplied = Return (a\<lparr>serversideApplied := serversideApplied a + 1\<rparr>)"
  "inc a Created = Return (a\<lparr>created := created a + 1\<rparr>)"
  "inc a Unchanged = Return (a\<lparr>unchanged := unchanged a + 1\<rparr>)"
  "inc a Configured = Return (a\<lparr>configured := configured a + 1\<rparr>)"
  by (simp_all add: inc_def)

lemma inc_panics_iff: "(\<exists>m. inc a op = Panic m) \<longleftrightarrow> \<not> counted op"
  by (cases op) (simp_all add: inc_def counted_def)

lemma transformPruneOperation_declared:
  "transformPruneOperation Pruned = Return Deleted"
  "transformPruneOperation PruneSkipped = Return DeleteSkipped"
  by (simp_all add: transformPruneOperation_def)

lemma transformPruneOperation_panics_iff:
  "(\<exists>m. transformPruneOperation op = Panic m) \<longleftrightarrow> (\<exists>i. op = OtherPruneEventOperation i)"
  by (cases op) (simp_all add: transformPruneOperation_def)

text \<open>
  C8.  \<open>Failed\<close> is a declared apply operation, and the applier sends it in the resource
  update of an object it could not apply.  \<open>inc\<close> has no case for it: the default branch
  is reached and the printer panics, on a value inside the declared enum.
\<close>

theorem inc_Failed_panics:
  "inc a Failed = Panic ''unknown apply operation Failed''
   \<and> returned (Print [applyUpdate Failed deploymentWeb] DryRunNone)
       = Panic ''unknown apply operation Failed''"
  by (simp add: printer_defs example_events)

section \<open>Properties of the destroyer\<close>

lemma SplitInfos_marker_present:
  assumes "SplitInfos lbl toU infos = (invInfo, rs, None)"
  shows "present invInfo"
proof -
  define invs where "invs = filter (\<lambda>info. present info \<and> IsInventoryObject lbl (toU info)) infos"
  from assms have "invs \<noteq> []" and "invInfo = invs ! 0"
    by (auto simp: SplitInfos_filter Let_def invs_def split: if_splits)
  then have "invInfo \<in> set invs"
    by simp
  then show ?thesis by (simp add: invs_def)
qed

lemma transformMessage_declared:
  "declaredPrune msg \<Longrightarrow> transformMessage msg = Return (relabelled msg)"
  by (auto simp: declaredPrune_def transformMessage_def transformPruneOperation_def relabelled_def)

lemma transformMessage_Delete:
  assumes "transformMessage msg = Return e"
  shows "Type e = DeleteType"
  using assms by (auto simp: transformMessage_def split: exec.splits)

lemma transformer_declared:
  "list_all declaredPrune (sent ss) \<Longrightarrow>
     runPruneEventTransformer ss = (map PruneAttempt (attempts ss), map relabelled (sent ss), None)"
  by (induction ss rule: sent.induct) (simp_all add: transformMessage_declared)

lemma transformer_events_Delete:
  "runPruneEventTransformer ss = (cs, es, pn) \<Longrightarrow> list_all (\<lambda>e. Type e = DeleteType) es"
proof (induction ss arbitrary: cs es pn rule: sent.induct)
  case 1
  then show ?case by simp
next
  case (2 m ss)
  then show ?case by (auto split: prod.splits)
next
  case (3 msg ss)
  then show ?case
    using transformMessage_Delete [of msg] by (auto split: exec.splits prod.splits)
qed

lemma transformer_calls_attempts:
  "runPruneEventTransformer ss = (cs, es, pn) \<Longrightarrow> \<exists>ms. cs = map PruneAttempt ms"
proof (induction ss arbitrary: cs es pn rule: sent.induct)
  case 1
  then show ?case by simp
next
  case (2 m ss)
  from 2 obtain cs' where "runPruneEventTransformer ss = (cs', es, pn)" and c: "cs = PruneAttempt m # cs'"
    by (auto split: prod.splits)
  with 2 obtain ms where "cs' = map PruneAttempt ms" by blast
  with c have "cs = map PruneAttempt (m # ms)" by simp
  then show ?case by blast
next
  case (3 msg ss)
  show ?case
  proof (cases "transformMessage msg")
    case (Panic x)
    with 3 have "cs = map PruneAttempt []" by simp
    then show ?thesis by blast
  next
    case (Return e)
    with 3 show ?thesis by (auto split: prod.splits)
  qed
qed

lemma Type_errorEventOf: "Type (errorEventOf err) = ErrorType"
  by (simp add: errorEventOf_def)

lemma only_last:
  assumes "xs @ [d] = pre @ c # post" "c \<notin> set xs"
  shows "post = [] \<and> pre = xs \<and> c = d"
  using assms
proof (induction xs arbitrary: pre)
  case Nil
  then show ?case by (cases pre) auto
next
  case (Cons x xs)
  then show ?case by (cases pre) auto
qed

text \<open>The shapes a run can take.\<close>

lemma Run_cases:
  obtains
    (read) infos err where "GetObjects d = (infos, Some err)"
      "Run lbl toU d =
         \<lparr>events = [errorEventOf (WrapPrefix err ''error reading resource manifests'')],
          closed = True, calls = [SetDryRunStrategy (dryRunStrategy d), CallGetObjects]\<rparr>"
  | (split) infos invInfo rs err where "GetObjects d = (infos, None)"
      "SplitInfos lbl toU infos = (invInfo, rs, Some err)"
      "Run lbl toU d =
         \<lparr>events = [errorEventOf (WrapPrefix err ''error clearing inventory object'')],
          closed = True, calls = [SetDryRunStrategy (dryRunStrategy d), CallGetObjects]\<rparr>"
  | (panic) infos invInfo rs cs es m where "GetObjects d = (infos, None)"
      "SplitInfos lbl toU infos = (invInfo, rs, None)"
      "runPruneEventTransformer (steps (Prune d [invInfo]
          \<lparr>optDryRunStrategy = dryRunStrategy d, PropagationPolicy = DeletePropagationBackground\<rparr>))
        = (cs, es, Some m)"
      "Run lbl toU d =
         \<lparr>events = es, closed = False,
          calls = [SetDryRunStrategy (dryRunStrategy d), CallGetObjects]
            @ CallPrune [invInfo] \<lparr>optDryRunStrategy = dryRunStrategy d,
                               PropagationPolicy = DeletePropagationBackground\<rparr> # cs\<rparr>"
  | (pruned) infos invInfo rs cs es final where "GetObjects d = (infos, None)"
      "SplitInfos lbl toU infos = (invInfo, rs, None)"
      "runPruneEventTransformer (steps (Prune d [invInfo]
          \<lparr>optDryRunStrategy = dryRunStrategy d, PropagationPolicy = DeletePropagationBackground\<rparr>))
        = (cs, es, None)"
      "final = (case pruneErr (Prune d [invInfo]
          \<lparr>optDryRunStrategy = dryRunStrategy d, PropagationPolicy = DeletePropagationBackground\<rparr>) of
            Some err \<Rightarrow> errorEventOf (WrapPrefix err ''error pruning resources'')
          | None \<Rightarrow> zeroEvent\<lparr>Type := DeleteType,
                     deleteEvent := (deleteEvent zeroEvent)\<lparr>deleteType := DeleteEventCompleted\<rparr>\<rparr>)"
      "Run lbl toU d =
         \<lparr>events = es @ [final], closed = True,
          calls = [SetDryRunStrategy (dryRunStrategy d), CallGetObjects]
            @ CallPrune [invInfo] \<lparr>optDryRunStrategy = dryRunStrategy d,
                               PropagationPolicy = DeletePropagationBackground\<rparr> # cs
            @ [CallDeleteInventoryObj invInfo (DeleteInventoryObj d invInfo)]\<rparr>"
proof (cases "GetObjects d")
  case g: (Pair infos gerr)
  show ?thesis
  proof (cases gerr)
    case (Some err)
    with g show ?thesis by (intro read [of infos err]) (simp_all add: Run_def)
  next
    case None
    obtain invInfo rs serr where s: "SplitInfos lbl toU infos = (invInfo, rs, serr)"
      by (cases "SplitInfos lbl toU infos") auto
    show ?thesis
    proof (cases serr)
      case (Some err)
      with g None s show ?thesis by (intro split [of infos invInfo rs err]) (simp_all add: Run_def)
    next
      case sn: None
      then have p: "present invInfo" using s SplitInfos_marker_present by blast
      obtain cs es pn where t: "runPruneEventTransformer (steps (Prune d [invInfo]
          \<lparr>optDryRunStrategy = dryRunStrategy d, PropagationPolicy = DeletePropagationBackground\<rparr>))
        = (cs, es, pn)"
        by (metis prod_cases3)
      show ?thesis
      proof (cases pn)
        case (Some m)
        with g None s sn t show ?thesis
          by (intro panic [of infos invInfo rs cs es m]) (simp_all add: Run_def Let_def)
      next
        case pnn: None
        with g None s sn t p show ?thesis
          by (intro pruned [of infos invInfo rs cs es]) 
            (auto simp add: Run_def Let_def present_def split: option.splits)
      qed
    qed
  qed
qed

lemma relabelled_fields:
  "Type (relabelled msg) = DeleteType"
  "deleteType (deleteEvent (relabelled msg)) = DeleteEventResourceUpdate"
  "deleteObject (deleteEvent (relabelled msg)) = pruneObject (pruneEvent msg)"
  "pruneOperation (pruneEvent msg) = Pruned \<Longrightarrow> deleteOperation (deleteEvent (relabelled msg)) = Deleted"
  "pruneOperation (pruneEvent msg) = PruneSkipped \<Longrightarrow>
     deleteOperation (deleteEvent (relabelled msg)) = DeleteSkipped"
  by (simp_all add: relabelled_def)

lemma Run_events_types:
  "list_all (\<lambda>e. Type e = ErrorType \<or> Type e = DeleteType) (events (Run lbl toU d))"
proof (cases rule: Run_cases [of d lbl toU])
  case (read infos err)
  then show ?thesis by (simp add: Type_errorEventOf)
next
  case (split infos invInfo rs err)
  then show ?thesis by (simp add: Type_errorEventOf)
next
  case (panic infos invInfo rs cs es m)
  then show ?thesis
    using transformer_events_Delete [of _ cs es "Some m"] by (auto simp: list_all_iff)
next
  case (pruned infos invInfo rs cs es final)
  have "Type final = ErrorType \<or> Type final = DeleteType"
    using pruned(4) by (simp add: Type_errorEventOf split: option.splits)
  then show ?thesis
    using pruned transformer_events_Delete [of _ cs es None] by (auto simp: list_all_iff)
qed

lemma Run_declared:
  assumes "GetObjects d = (infos, None)" "SplitInfos lbl toU infos = (invInfo, rs, None)"
    "list_all declaredPrune (sent (steps (Prune d [invInfo] (pruneOptions d))))"
  shows "Run lbl toU d =
     \<lparr>events = map relabelled (sent (steps (Prune d [invInfo] (pruneOptions d))))
        @ [case pruneErr (Prune d [invInfo] (pruneOptions d)) of
             Some err \<Rightarrow> errorEventOf (WrapPrefix err ''error pruning resources'')
           | None \<Rightarrow> zeroEvent\<lparr>Type := DeleteType,
                      deleteEvent := (deleteEvent zeroEvent)\<lparr>deleteType := DeleteEventCompleted\<rparr>\<rparr>],
      closed = True,
      calls = [SetDryRunStrategy (dryRunStrategy d), CallGetObjects, CallPrune [invInfo] (pruneOptions d)]
        @ map PruneAttempt (attempts (steps (Prune d [invInfo] (pruneOptions d))))
        @ [CallDeleteInventoryObj invInfo (DeleteInventoryObj d invInfo)]\<rparr>"
proof -
  have "present invInfo" using assms(2) by (rule SplitInfos_marker_present)
  then have "invInfo \<noteq> None" by (simp add: present_def)
  then show ?thesis
    using assms transformer_declared [OF assms(3)]
    by (simp add: Run_def Let_def split: option.splits)
qed

lemma Run_deletion_ignored:
  "events (Run lbl toU (d\<lparr>DeleteInventoryObj := del\<rparr>)) = events (Run lbl toU d)
   \<and> closed (Run lbl toU (d\<lparr>DeleteInventoryObj := del\<rparr>)) = closed (Run lbl toU d)"
proof (cases "GetObjects d")
  case g: (Pair infos gerr)
  show ?thesis
  proof (cases gerr)
    case (Some err)
    with g show ?thesis by (simp add: Run_def)
  next
    case None
    obtain invInfo rs serr where s: "SplitInfos lbl toU infos = (invInfo, rs, serr)"
      by (cases "SplitInfos lbl toU infos") auto
    show ?thesis
    proof (cases serr)
      case (Some err)
      with g None s show ?thesis by (simp add: Run_def)
    next
      case sn: None
      obtain cs es pn where t: "runPruneEventTransformer (steps (Prune d [invInfo] (pruneOptions d)))
          = (cs, es, pn)"
        by (metis prod_cases3)
      show ?thesis
      proof (cases pn)
        case (Some m)
        with g None s sn t show ?thesis by (simp add: Run_def Let_def)
      next
        case pnn: None
        show ?thesis
        proof (cases "pruneErr (Prune d [invInfo] (pruneOptions d))")
          case None
          with g \<open>gerr = None\<close> s sn t pnn show ?thesis by (simp add: Run_def Let_def)
        next
          case (Some err)
          with g \<open>gerr = None\<close> s sn t pnn show ?thesis by (simp add: Run_def Let_def)
        qed
      qed
    qed
  qed
qed

text \<open>
  C2.  No event that \<open>Run\<close> sends on the public channel has the Prune type.  In a run
  that reaches the prune engine, every message the engine sends, while each carries a
  declared prune operation, comes out relabelled as a Delete resource update with the
  same object, \<open>Pruned\<close> as \<open>Deleted\<close> and \<open>PruneSkipped\<close> as \<open>DeleteSkipped\<close>, in the
  engine's order and followed by the one closing event of the run.
\<close>

theorem prune_events_relabelled:
  "list_all (\<lambda>e. Type e \<noteq> PruneType) (events (Run lbl toU d))
   \<and> (GetObjects d = (infos, None) \<and> SplitInfos lbl toU infos = (invInfo, rs, None)
        \<and> list_all declaredPrune (sent (steps (Prune d [invInfo] (pruneOptions d)))) \<longrightarrow>
      (\<exists>final. events (Run lbl toU d) =
          map relabelled (sent (steps (Prune d [invInfo] (pruneOptions d)))) @ [final]
        \<and> Type final \<noteq> PruneType))
   \<and> Type (relabelled msg) = DeleteType
   \<and> deleteType (deleteEvent (relabelled msg)) = DeleteEventResourceUpdate
   \<and> deleteObject (deleteEvent (relabelled msg)) = pruneObject (pruneEvent msg)
   \<and> (pruneOperation (pruneEvent msg) = Pruned \<longrightarrow>
        deleteOperation (deleteEvent (relabelled msg)) = Deleted)
   \<and> (pruneOperation (pruneEvent msg) = PruneSkipped \<longrightarrow>
        deleteOperation (deleteEvent (relabelled msg)) = DeleteSkipped)"
proof (intro conjI impI)
  show "list_all (\<lambda>e. Type e \<noteq> PruneType) (events (Run lbl toU d))"
    using Run_events_types [of lbl toU d] by (auto simp: list_all_iff)
next
  assume h: "GetObjects d = (infos, None) \<and> SplitInfos lbl toU infos = (invInfo, rs, None)
        \<and> list_all declaredPrune (sent (steps (Prune d [invInfo] (pruneOptions d))))"
  then have r: "Run lbl toU d =
     \<lparr>events = map relabelled (sent (steps (Prune d [invInfo] (pruneOptions d))))
        @ [case pruneErr (Prune d [invInfo] (pruneOptions d)) of
             Some err \<Rightarrow> errorEventOf (WrapPrefix err ''error pruning resources'')
           | None \<Rightarrow> zeroEvent\<lparr>Type := DeleteType,
                      deleteEvent := (deleteEvent zeroEvent)\<lparr>deleteType := DeleteEventCompleted\<rparr>\<rparr>],
      closed = True,
      calls = [SetDryRunStrategy (dryRunStrategy d), CallGetObjects, CallPrune [invInfo] (pruneOptions d)]
        @ map PruneAttempt (attempts (steps (Prune d [invInfo] (pruneOptions d))))
        @ [CallDeleteInventoryObj invInfo (DeleteInventoryObj d invInfo)]\<rparr>"
    using Run_declared by blast
  show "\<exists>final. events (Run lbl toU d) =
          map relabelled (sent (steps (Prune d [invInfo] (pruneOptions d)))) @ [final]
        \<and> Type final \<noteq> PruneType"
    unfolding r by (simp add: Type_errorEventOf split: option.splits)
qed (simp_all add: relabelled_fields)

theorem prune_events_relabelled_witness:
  "events (Run exampleLabel exampleToU (exampleDestroyer (examplePruning None) None))
     = [deleteUpdate Deleted deploymentWeb, deleteUpdate DeleteSkipped blankCM, deleteCompleted]
   \<and> relabelled (pruneUpdate Pruned deploymentWeb) = deleteUpdate Deleted deploymentWeb
   \<and> relabelled (pruneUpdate PruneSkipped blankCM) = deleteUpdate DeleteSkipped blankCM"
  using prune_events_relabelled [where lbl = exampleLabel and toU = exampleToU
      and d = "exampleDestroyer (examplePruning None) None"
      and infos = "[infoOf deploymentWeb, infoOf inventoryCM]"
      and invInfo = "infoOf inventoryCM" and rs = "[infoOf deploymentWeb]"
      and msg = "pruneUpdate Pruned deploymentWeb"]
    prune_events_relabelled [where lbl = exampleLabel and toU = exampleToU
      and d = "exampleDestroyer (examplePruning None) None"
      and msg = "pruneUpdate PruneSkipped blankCM"]
  by (simp add: Run_def SplitInfos_filter IsInventoryObject_iff TrimSpace_examples
      present_def transformMessage_def transformPruneOperation_def relabelled_def Let_def
      example_defs example_events example_destroyer)

text \<open>
  C3.  In the events of a run an Error event is the last one: nothing follows it, the
  channel is closed, and no Error event precedes it, so a run sends at most one.  A run
  whose manifests cannot be read, or in which no single inventory object is found, sends
  exactly that Error event; a run whose prune engine returns an error sends the
  relabelled events of the engine and then exactly that Error event.
\<close>

theorem error_event_is_last:
  "(events (Run lbl toU d) = pre @ e # post \<and> Type e = ErrorType \<longrightarrow>
      post = [] \<and> closed (Run lbl toU d) \<and> list_all (\<lambda>x. Type x \<noteq> ErrorType) pre)
   \<and> length (filter (\<lambda>x. Type x = ErrorType) (events (Run lbl toU d))) \<le> 1
   \<and> (GetObjects d = (infos, Some err) \<longrightarrow>
      events (Run lbl toU d) = [errorEventOf (WrapPrefix err ''error reading resource manifests'')]
      \<and> closed (Run lbl toU d))
   \<and> (GetObjects d = (infos, None) \<and> SplitInfos lbl toU infos = (invInfo, rs, Some err) \<longrightarrow>
      events (Run lbl toU d) = [errorEventOf (WrapPrefix err ''error clearing inventory object'')]
      \<and> closed (Run lbl toU d))
   \<and> (GetObjects d = (infos, None) \<and> SplitInfos lbl toU infos = (invInfo, rs, None)
        \<and> pruneErr (Prune d [invInfo] (pruneOptions d)) = Some err
        \<and> list_all declaredPrune (sent (steps (Prune d [invInfo] (pruneOptions d)))) \<longrightarrow>
      events (Run lbl toU d) =
        map relabelled (sent (steps (Prune d [invInfo] (pruneOptions d))))
        @ [errorEventOf (WrapPrefix err ''error pruning resources'')]
      \<and> closed (Run lbl toU d))
   \<and> Type (errorEventOf err) = ErrorType
   \<and> Type (relabelled msg) \<noteq> ErrorType"
proof (intro conjI impI)
  assume h: "events (Run lbl toU d) = pre @ e # post \<and> Type e = ErrorType"
  have "post = [] \<and> closed (Run lbl toU d) \<and> list_all (\<lambda>x. Type x \<noteq> ErrorType) pre"
  proof (cases rule: Run_cases [of d lbl toU])
    case (read infos err)
    with h have "[errorEventOf (WrapPrefix err ''error reading resource manifests'')] = pre @ e # post"
      by simp
    then have "pre = [] \<and> post = []" by (cases pre) auto
    with read show ?thesis by simp
  next
    case (split infos invInfo rs err)
    with h have "[errorEventOf (WrapPrefix err ''error clearing inventory object'')] = pre @ e # post"
      by simp
    then have "pre = [] \<and> post = []" by (cases pre) auto
    with split show ?thesis by simp
  next
    case (panic infos invInfo rs cs es m)
    have "list_all (\<lambda>e. Type e = DeleteType) es"
      using panic(3) by (rule transformer_events_Delete)
    moreover have "e \<in> set es" using h panic(4) by simp
    ultimately show ?thesis using h by (auto simp: list_all_iff)
  next
    case (pruned infos invInfo rs cs es final)
    have del: "list_all (\<lambda>e. Type e = DeleteType) es"
      using pruned(3) by (rule transformer_events_Delete)
    then have "e \<notin> set es" using h by (auto simp: list_all_iff)
    moreover have "es @ [final] = pre @ e # post" using h pruned(5) by simp
    ultimately have "post = [] \<and> pre = es \<and> e = final" by (rule only_last [rotated])
    with del pruned(5) show ?thesis by (auto simp: list_all_iff)
  qed
  then show "post = []" "closed (Run lbl toU d)" "list_all (\<lambda>x. Type x \<noteq> ErrorType) pre"
    by simp_all
next
  show "length (filter (\<lambda>x. Type x = ErrorType) (events (Run lbl toU d))) \<le> 1"
  proof (cases rule: Run_cases [of d lbl toU])
    case (read infos err)
    then show ?thesis by simp
  next
    case (split infos invInfo rs err)
    then show ?thesis by simp
  next
    case (panic infos invInfo rs cs es m)
    have "list_all (\<lambda>e. Type e = DeleteType) es"
      using panic(3) by (rule transformer_events_Delete)
    then have "filter (\<lambda>x. Type x = ErrorType) es = []"
      by (auto simp: list_all_iff filter_empty_conv)
    with panic(4) show ?thesis by simp
  next
    case (pruned infos invInfo rs cs es final)
    have "list_all (\<lambda>e. Type e = DeleteType) es"
      using pruned(3) by (rule transformer_events_Delete)
    then have "filter (\<lambda>x. Type x = ErrorType) es = []"
      by (auto simp: list_all_iff filter_empty_conv)
    with pruned(5) show ?thesis by simp
  qed
next
  assume "GetObjects d = (infos, Some err)"
  then show "events (Run lbl toU d) = [errorEventOf (WrapPrefix err ''error reading resource manifests'')]"
    "closed (Run lbl toU d)"
    by (simp_all add: Run_def)
next
  assume "GetObjects d = (infos, None) \<and> SplitInfos lbl toU infos = (invInfo, rs, Some err)"
  then show "events (Run lbl toU d) = [errorEventOf (WrapPrefix err ''error clearing inventory object'')]"
    "closed (Run lbl toU d)"
    by (simp_all add: Run_def)
next
  assume h: "GetObjects d = (infos, None) \<and> SplitInfos lbl toU infos = (invInfo, rs, None)
        \<and> pruneErr (Prune d [invInfo] (pruneOptions d)) = Some err
        \<and> list_all declaredPrune (sent (steps (Prune d [invInfo] (pruneOptions d))))"
  then show "events (Run lbl toU d) =
        map relabelled (sent (steps (Prune d [invInfo] (pruneOptions d))))
        @ [errorEventOf (WrapPrefix err ''error pruning resources'')]"
    "closed (Run lbl toU d)"
    using Run_declared [of d infos lbl toU invInfo rs] by simp_all
qed (simp_all add: Type_errorEventOf relabelled_fields)

theorem error_event_is_last_witness:
  "events (Run exampleLabel exampleToU
       (exampleDestroyer (examplePruning (Some (External ''connection refused''))) None))
     = [deleteUpdate Deleted deploymentWeb, deleteUpdate DeleteSkipped blankCM,
        errorEventOf (WrapPrefix (External ''connection refused'') ''error pruning resources'')]
   \<and> closed (Run exampleLabel exampleToU
       (exampleDestroyer (examplePruning (Some (External ''connection refused''))) None))
   \<and> events (Run exampleLabel exampleToU
       ((exampleDestroyer (examplePruning None) None)
          \<lparr>GetObjects := ([], Some (External ''no such directory''))\<rparr>))
     = [errorEventOf (WrapPrefix (External ''no such directory'') ''error reading resource manifests'')]
   \<and> events (Run exampleLabel exampleToU
       ((exampleDestroyer (examplePruning None) None)
          \<lparr>GetObjects := ([infoOf deploymentWeb], None)\<rparr>))
     = [errorEventOf (WrapPrefix NoInventoryObjError ''error clearing inventory object'')]"
  using error_event_is_last [where lbl = exampleLabel and toU = exampleToU
      and d = "exampleDestroyer (examplePruning (Some (External ''connection refused''))) None"
      and infos = "[infoOf deploymentWeb, infoOf inventoryCM]"
      and invInfo = "infoOf inventoryCM" and rs = "[infoOf deploymentWeb]"
      and err = "External ''connection refused''"
      and pre = "[deleteUpdate Deleted deploymentWeb, deleteUpdate DeleteSkipped blankCM]"
      and e = "errorEventOf (WrapPrefix (External ''connection refused'') ''error pruning resources'')"
      and post = "[]"]
    error_event_is_last [where lbl = exampleLabel and toU = exampleToU
      and d = "(exampleDestroyer (examplePruning None) None)
          \<lparr>GetObjects := ([], Some (External ''no such directory''))\<rparr>"
      and infos = "[]" and err = "External ''no such directory''"]
    error_event_is_last [where lbl = exampleLabel and toU = exampleToU
      and d = "(exampleDestroyer (examplePruning None) None)
          \<lparr>GetObjects := ([infoOf deploymentWeb], None)\<rparr>"
      and infos = "[infoOf deploymentWeb]" and invInfo = None and rs = "[infoOf deploymentWeb]"
      and err = NoInventoryObjError]
  by (simp add: Run_def SplitInfos_filter IsInventoryObject_iff TrimSpace_examples
      present_def transformMessage_def transformPruneOperation_def relabelled_def Let_def
      example_defs example_events example_destroyer)

text \<open>
  C4.  In a run that reaches the prune engine, the deletion of the inventory object is
  the last call the run makes: it comes after the call of \<open>Prune\<close> and after every prune
  attempt that call issues, and in no run is any call made after it.  What the deletion
  returns is discarded: the events of the run and the closing of the channel are the
  same whatever it returns, and a run whose engine returns no error sends no Error
  event.
\<close>

theorem marker_deleted_after_prune:
  "(GetObjects d = (infos, None) \<and> SplitInfos lbl toU infos = (invInfo, rs, None)
      \<and> list_all declaredPrune (sent (steps (Prune d [invInfo] (pruneOptions d)))) \<longrightarrow>
      calls (Run lbl toU d) =
        [SetDryRunStrategy (dryRunStrategy d), CallGetObjects, CallPrune [invInfo] (pruneOptions d)]
        @ map PruneAttempt (attempts (steps (Prune d [invInfo] (pruneOptions d))))
        @ [CallDeleteInventoryObj invInfo (DeleteInventoryObj d invInfo)])
   \<and> (calls (Run lbl toU d) = before @ CallDeleteInventoryObj x res # after \<longrightarrow> after = [])
   \<and> events (Run lbl toU (d\<lparr>DeleteInventoryObj := del\<rparr>)) = events (Run lbl toU d)
   \<and> closed (Run lbl toU (d\<lparr>DeleteInventoryObj := del\<rparr>)) = closed (Run lbl toU d)
   \<and> (GetObjects d = (infos, None) \<and> SplitInfos lbl toU infos = (invInfo, rs, None)
      \<and> pruneErr (Prune d [invInfo] (pruneOptions d)) = None \<longrightarrow>
      list_all (\<lambda>e. Type e \<noteq> ErrorType) (events (Run lbl toU d)))"
proof (intro conjI impI)
  assume "GetObjects d = (infos, None) \<and> SplitInfos lbl toU infos = (invInfo, rs, None)
      \<and> list_all declaredPrune (sent (steps (Prune d [invInfo] (pruneOptions d))))"
  then show "calls (Run lbl toU d) =
        [SetDryRunStrategy (dryRunStrategy d), CallGetObjects, CallPrune [invInfo] (pruneOptions d)]
        @ map PruneAttempt (attempts (steps (Prune d [invInfo] (pruneOptions d))))
        @ [CallDeleteInventoryObj invInfo (DeleteInventoryObj d invInfo)]"
    using Run_declared [of d infos lbl toU invInfo rs] by simp
next
  assume h: "calls (Run lbl toU d) = before @ CallDeleteInventoryObj x res # after"
  show "after = []"
  proof (cases rule: Run_cases [of d lbl toU])
    case (read infos err)
    have "CallDeleteInventoryObj x res \<in> set (calls (Run lbl toU d))" using h by simp
    then show ?thesis using read(2) by simp
  next
    case (split infos invInfo rs err)
    have "CallDeleteInventoryObj x res \<in> set (calls (Run lbl toU d))" using h by simp
    then show ?thesis using split(3) by simp
  next
    case (panic infos invInfo rs cs es m)
    from transformer_calls_attempts [OF panic(3)] obtain ms where ms: "cs = map PruneAttempt ms"
      by blast
    have "CallDeleteInventoryObj x res \<in> set (calls (Run lbl toU d))" using h by simp
    then show ?thesis using panic(4) ms by auto
  next
    case (pruned infos invInfo rs cs es final)
    from transformer_calls_attempts [OF pruned(3)] obtain ms where ms: "cs = map PruneAttempt ms"
      by blast
    have "([SetDryRunStrategy (dryRunStrategy d), CallGetObjects]
            @ CallPrune [invInfo] (pruneOptions d) # cs)
          @ [CallDeleteInventoryObj invInfo (DeleteInventoryObj d invInfo)]
        = before @ CallDeleteInventoryObj x res # after"
      using h pruned(5) by simp
    moreover have "CallDeleteInventoryObj x res \<notin> set ([SetDryRunStrategy (dryRunStrategy d), CallGetObjects]
            @ CallPrune [invInfo] (pruneOptions d) # cs)"
      using ms by auto
    ultimately show ?thesis by (rule only_last [THEN conjunct1])
  qed
next
  show "events (Run lbl toU (d\<lparr>DeleteInventoryObj := del\<rparr>)) = events (Run lbl toU d)"
    by (simp add: Run_deletion_ignored)
next
  show "closed (Run lbl toU (d\<lparr>DeleteInventoryObj := del\<rparr>)) = closed (Run lbl toU d)"
    by (simp add: Run_deletion_ignored)
next
  assume h: "GetObjects d = (infos, None) \<and> SplitInfos lbl toU infos = (invInfo, rs, None)
      \<and> pruneErr (Prune d [invInfo] (pruneOptions d)) = None"
  show "list_all (\<lambda>e. Type e \<noteq> ErrorType) (events (Run lbl toU d))"
  proof (cases rule: Run_cases [of d lbl toU])
    case (read infos err)
    with h show ?thesis by simp
  next
    case (split infos' invInfo' rs' err)
    with h show ?thesis by simp
  next
    case (panic infos' invInfo' rs' cs es m)
    then show ?thesis
      using transformer_events_Delete [of _ cs es "Some m"] by (auto simp: list_all_iff)
  next
    case (pruned infos' invInfo' rs' cs es final)
    with h have "Type final = DeleteType" by simp
    with pruned show ?thesis
      using transformer_events_Delete [of _ cs es None] by (auto simp: list_all_iff)
  qed
qed

theorem marker_deleted_after_prune_witness:
  "calls (Run exampleLabel exampleToU
       (exampleDestroyer (examplePruning None) (Some (External ''forbidden''))))
     = [SetDryRunStrategy DryRunNone, CallGetObjects,
        CallPrune [infoOf inventoryCM]
          \<lparr>optDryRunStrategy = DryRunNone, PropagationPolicy = DeletePropagationBackground\<rparr>,
        PruneAttempt (metaOf deploymentWeb), PruneAttempt (metaOf blankCM),
        CallDeleteInventoryObj (infoOf inventoryCM) (Some (External ''forbidden''))]
   \<and> events (Run exampleLabel exampleToU
       (exampleDestroyer (examplePruning None) (Some (External ''forbidden''))))
     = [deleteUpdate Deleted deploymentWeb, deleteUpdate DeleteSkipped blankCM, deleteCompleted]
   \<and> events (Run exampleLabel exampleToU
       (exampleDestroyer (examplePruning None) (Some (External ''forbidden''))))
     = events (Run exampleLabel exampleToU (exampleDestroyer (examplePruning None) None))"
  using marker_deleted_after_prune [where lbl = exampleLabel and toU = exampleToU
      and d = "exampleDestroyer (examplePruning None) (Some (External ''forbidden''))"
      and infos = "[infoOf deploymentWeb, infoOf inventoryCM]"
      and invInfo = "infoOf inventoryCM" and rs = "[infoOf deploymentWeb]"
      and del = "\<lambda>info. None"
      and before = "[SetDryRunStrategy DryRunNone, CallGetObjects,
        CallPrune [infoOf inventoryCM]
          \<lparr>optDryRunStrategy = DryRunNone, PropagationPolicy = DeletePropagationBackground\<rparr>,
        PruneAttempt (metaOf deploymentWeb), PruneAttempt (metaOf blankCM)]"
      and x = "infoOf inventoryCM" and res = "Some (External ''forbidden'')" and after = "[]"]
  by (simp add: Run_def SplitInfos_filter IsInventoryObject_iff TrimSpace_examples
      present_def transformMessage_def transformPruneOperation_def relabelled_def Let_def
      example_defs example_events example_destroyer)

end
